theory Spec2Isabelle
  imports Complex_Main
begin

section \<open>Python text primitives used by the parser\<close>

text \<open>
  Text is modelled as \<^typ>\<open>string\<close>: one \<^typ>\<open>char\<close> per code point, for input whose code
  points lie below 256. The source reads the file in text mode, so a line is the text up to
  and including its newline.
\<close>

definition TAB :: char where
  "TAB = CHR 0x09"

definition NEWLINE :: char where
  "NEWLINE = CHR 0x0A"

text \<open>\<^verbatim>\<open>str.isspace\<close> on one character: code points 9-13, 28-32, 133 and 160.\<close>

definition py_isspace :: "char \<Rightarrow> bool" where
  "py_isspace c =
     (let n = (of_char c :: nat)
      in (9 \<le> n \<and> n \<le> 13) \<or> (28 \<le> n \<and> n \<le> 32) \<or> n = 133 \<or> n = 160)"

text \<open>\<^verbatim>\<open>s.strip()\<close>: drop the leading and the trailing run of whitespace.\<close>

definition py_strip :: "string \<Rightarrow> string" where
  "py_strip s = rev (dropWhile py_isspace (rev (dropWhile py_isspace s)))"

text \<open>\<^verbatim>\<open>s.startswith(p)\<close>.\<close>

definition py_startswith :: "string \<Rightarrow> string \<Rightarrow> bool" where
  "py_startswith s p = (take (length p) s = p)"

text \<open>
  The exceptions the parser can meet. \<open>OSError\<close> stands for the errors of opening or
  reading a file (\<^verbatim>\<open>IsADirectoryError\<close>, \<^verbatim>\<open>PermissionError\<close>, \<^verbatim>\<open>FileNotFoundError\<close> and the
  like), named by its argument; \<open>UnicodeDecodeError\<close> is raised by the text-mode read of
  bytes that do not decode.
\<close>

datatype py_error =
    FileExistsError string
  | ValueError
  | ZeroDivisionError
  | OverflowError
  | OSError string
  | UnicodeDecodeError

text \<open>
  \<^verbatim>\<open>s.split(sep)\<close> scans from the left; \<open>cur\<close> is the field being collected. When
  \<open>sep\<close> matches at \<open>c # cs\<close> the scan resumes behind it, that is at
  \<open>drop (length sep - 1) cs\<close>. An empty separator raises \<^verbatim>\<open>ValueError\<close>.
\<close>

fun split_from :: "string \<Rightarrow> string \<Rightarrow> string \<Rightarrow> string list" where
  "split_from sep cur [] = [cur]"
| "split_from sep cur (c # cs) =
     (if take (length sep) (c # cs) = sep
      then cur # split_from sep [] (drop (length sep - 1) cs)
      else split_from sep (cur @ [c]) cs)"

definition py_split :: "string \<Rightarrow> string \<Rightarrow> py_error + string list" where
  "py_split s sep = (if sep = [] then Inl ValueError else Inr (split_from sep [] s))"

text \<open>
  \<^verbatim>\<open>s.replace(old, new)\<close>: one pass from the left over non-overlapping matches. With an
  empty \<open>old\<close> Python puts \<open>new\<close> before every character and at the end.
\<close>

fun replace_from :: "string \<Rightarrow> string \<Rightarrow> string \<Rightarrow> string" where
  "replace_from old new [] = []"
| "replace_from old new (c # cs) =
     (if take (length old) (c # cs) = old
      then new @ replace_from old new (drop (length old - 1) cs)
      else c # replace_from old new cs)"

definition py_replace :: "string \<Rightarrow> string \<Rightarrow> string \<Rightarrow> string" where
  "py_replace s old new =
     (if old = [] then new @ concat (map (\<lambda>c. c # new) s) else replace_from old new s)"

text \<open>\<^verbatim>\<open>sep.join(xs)\<close>.\<close>

fun py_join :: "string \<Rightarrow> string list \<Rightarrow> string" where
  "py_join sep [] = []"
| "py_join sep [x] = x"
| "py_join sep (x # y # ys) = x @ sep @ py_join sep (y # ys)"

subsection \<open>Integers: \<^verbatim>\<open>int(s)\<close> and \<^verbatim>\<open>str(n)\<close>\<close>

text \<open>
  \<^verbatim>\<open>int(s)\<close> in base 10 skips surrounding whitespace, takes an optional sign, then digits
  with single underscores allowed between two digits; anything else raises
  \<^verbatim>\<open>ValueError\<close>. Its whitespace is narrower than \<^verbatim>\<open>str.isspace\<close>: the separators
  28-31 are not skipped. The interpreter's optional cap on the number of digits is a
  \<^verbatim>\<open>ValueError\<close> as well and is left out: integers are unbounded.
\<close>

definition int_isspace :: "char \<Rightarrow> bool" where
  "int_isspace c =
     (let n = (of_char c :: nat)
      in (9 \<le> n \<and> n \<le> 13) \<or> n = 32 \<or> n = 133 \<or> n = 160)"

definition is_digit :: "char \<Rightarrow> bool" where
  "is_digit c = (let n = (of_char c :: nat) in 48 \<le> n \<and> n \<le> 57)"

definition digit_val :: "char \<Rightarrow> int" where
  "digit_val c = int (of_char c) - 48"

fun int_digits :: "int \<Rightarrow> string \<Rightarrow> int option" where
  "int_digits acc [] = Some acc"
| "int_digits acc [c] = (if is_digit c then Some (acc * 10 + digit_val c) else None)"
| "int_digits acc (c # d # cs) =
     (if is_digit c then int_digits (acc * 10 + digit_val c) (d # cs)
      else if c = CHR ''_'' \<and> is_digit d then int_digits acc (d # cs)
      else None)"

fun int_unsigned :: "string \<Rightarrow> int option" where
  "int_unsigned [] = None"
| "int_unsigned (c # cs) = (if is_digit c then int_digits (digit_val c) cs else None)"

definition py_int :: "string \<Rightarrow> py_error + int" where
  "py_int s =
     (let t = rev (dropWhile int_isspace (rev (dropWhile int_isspace s)));
          r = (case t of
                 [] \<Rightarrow> None
               | c # cs \<Rightarrow>
                   if c = CHR ''+'' then int_unsigned cs
                   else if c = CHR ''-'' then map_option uminus (int_unsigned cs)
                   else int_unsigned t)
      in case r of None \<Rightarrow> Inl ValueError | Some n \<Rightarrow> Inr n)"

definition digit_char :: "nat \<Rightarrow> char" where
  "digit_char d = char_of (48 + d)"

fun str_nat :: "nat \<Rightarrow> string" where
  "str_nat n = (if n < 10 then [digit_char n] else str_nat (n div 10) @ [digit_char (n mod 10)])"

definition py_str_int :: "int \<Rightarrow> string" where
  "py_str_int i = (if i < 0 then CHR ''-'' # str_nat (nat (- i)) else str_nat (nat i))"

text \<open>
  \<^verbatim>\<open>float(s)\<close> is a parameter \<open>float_of\<close> of the model: on a string it either returns a
  float or raises \<^verbatim>\<open>ValueError\<close> (\<open>None\<close>). The type \<open>'f\<close> of floats is left open.
\<close>

definition py_float :: "(string \<Rightarrow> 'f option) \<Rightarrow> string \<Rightarrow> py_error + 'f" where
  "py_float float_of s = (case float_of s of None \<Rightarrow> Inl ValueError | Some x \<Rightarrow> Inr x)"

text \<open>True division \<^verbatim>\<open>a / b\<close>; floats are idealised as rationals.\<close>

definition py_truediv :: "rat \<Rightarrow> rat \<Rightarrow> py_error + rat" where
  "py_truediv a b = (if b = 0 then Inl ZeroDivisionError else Inr (a / b))"

section \<open>Data produced by the parser\<close>

text \<open>
  The parser yields Python dictionaries built from literals. They are modelled as values of
  a small datatype; a dictionary is the list of its key-value pairs in insertion order.
\<close>

datatype 'f pyval =
    PyStr string
  | PyInt int
  | PyFloat 'f
  | PyList "'f pyval list"
  | PyDict "(string \<times> 'f pyval) list"

text \<open>\<^verbatim>\<open>d[k]\<close> on a modelled dictionary.\<close>

fun py_get :: "'f pyval \<Rightarrow> string \<Rightarrow> 'f pyval option" where
  "py_get (PyDict kvs) k = map_of kvs k"
| "py_get _ k = None"

text \<open>
  Log records keep the values each message interpolates instead of the formatted text.
\<close>

datatype log_msg =
    Info_start_counting
  | Info_total_lines nat
  | Error_file_not_found string
  | Info_start_reading string
  | Info_progress nat rat nat rat
  | Error_unpack nat string
  | Error_got "string list"
  | Error_cast nat
  | Info_completed nat nat
  | Info_skipped_line string

text \<open>What a consumer of the generator and a reader of the log observe, in order.\<close>

datatype 'f event = Log log_msg | Yield "'f pyval"

fun yields :: "'f event list \<Rightarrow> 'f pyval list" where
  "yields [] = []"
| "yields (Log m # es) = yields es"
| "yields (Yield r # es) = r # yields es"

section \<open>The parser\<close>

definition FILE_NOT_FOUND_ERROR :: "string \<Rightarrow> string" where
  "FILE_NOT_FOUND_ERROR path = ''Cannot find input file: '' @ path"

definition SOURCE_NAME :: string where
  "SOURCE_NAME = ''3dts''"

definition FILENAME :: string where
  "FILENAME = ''3dts_loci_scores.sorted.tsv''"

definition DELIMITER :: string where
  "DELIMITER = [TAB]"

text \<open>
  The file system is a map from paths to the lines a text-mode read of the file iterates
  over; a path outside its domain does not exist. Every file in it can be opened and read
  to its end; files that cannot are added in the section on the environment below.
  \<^verbatim>\<open>os.path.join\<close> with a relative second part, on POSIX.
\<close>

type_synonym filesystem = "string \<rightharpoonup> string list"

definition path_join :: "string \<Rightarrow> string \<Rightarrow> string" where
  "path_join a b = (if a = [] \<or> last a = CHR ''/'' then a @ b else a @ ''/'' @ b)"

text \<open>
  \<^verbatim>\<open>_inspect_file\<close>: \<open>i\<close> starts at 0 and takes the index of every line enumerated; the
  result is \<open>i + 1\<close>.
\<close>

definition inspect_file :: "string list \<Rightarrow> log_msg list \<times> nat" where
  "inspect_file f =
     (let i = foldl (\<lambda>i (k, l). k) 0 (enumerate 0 f)
      in ([Info_start_counting, Info_total_lines (i + 1)], i + 1))"

text \<open>
  Unpacking the split line into nine names raises \<^verbatim>\<open>ValueError\<close> unless there are exactly
  nine values.
\<close>

type_synonym fields9 =
  "string \<times> string \<times> string \<times> string \<times> string \<times> string \<times> string \<times> string \<times> string"

definition unpack9 :: "string list \<Rightarrow> py_error + fields9" where
  "unpack9 xs =
     (if length xs = 9
      then Inr (xs ! 0, xs ! 1, xs ! 2, xs ! 3, xs ! 4, xs ! 5, xs ! 6, xs ! 7, xs ! 8)
      else Inl ValueError)"

text \<open>The first \<^verbatim>\<open>try\<close> block (source lines 66-68): strip, split, unpack.\<close>

definition split_line :: "string \<Rightarrow> py_error + fields9" where
  "split_line line =
     (case py_split (py_strip line) DELIMITER of
        Inl e \<Rightarrow> Inl e
      | Inr xs \<Rightarrow> unpack9 xs)"

text \<open>The second \<^verbatim>\<open>try\<close> block (source lines 75-79), statement by statement.\<close>

definition cast_fields ::
  "(string \<Rightarrow> 'f option) \<Rightarrow> string \<Rightarrow> string \<Rightarrow> string \<Rightarrow> string \<Rightarrow>
     py_error + (string \<times> int \<times> int \<times> 'f)" where
  "cast_fields float_of chrom start end_pos score =
     (let chrom' = py_replace chrom ''chr'' []
      in case py_int start of
           Inl e \<Rightarrow> Inl e
         | Inr start' \<Rightarrow>
             (case py_int end_pos of
                Inl e \<Rightarrow> Inl e
              | Inr end' \<Rightarrow>
                  (case py_float float_of score of
                     Inl e \<Rightarrow> Inl e
                   | Inr score' \<Rightarrow> Inr (chrom', start', end', score'))))"

text \<open>Source lines 85-106: the identifier and the dictionary that is yielded.\<close>

definition make_id :: "string \<Rightarrow> int \<Rightarrow> int \<Rightarrow> string" where
  "make_id chrom start end_pos =
     ''chr'' @ chrom @ '':g.'' @ py_str_int start @ ''_'' @ py_str_int end_pos"

definition make_entry ::
  "string \<Rightarrow> int \<Rightarrow> int \<Rightarrow> 'f \<Rightarrow> string \<Rightarrow> string \<Rightarrow> string \<Rightarrow> string \<Rightarrow> string \<Rightarrow> 'f pyval" where
  "make_entry chrom start end_pos score pdb_id pdb_chain uniprot_feature_name
       pdb_residue_min pdb_residue_max =
     (let variant = PyDict
        [(''chrom'', PyStr chrom),
         (''start'', PyInt start),
         (''end'', PyInt end_pos),
         (''scores'', PyList
            [PyDict
               [(''score'', PyFloat score),
                (''pdb_id'', PyStr pdb_id),
                (''pdb_chain'', PyStr pdb_chain),
                (''uniprot_feature_name'', PyStr uniprot_feature_name),
                (''pdb_residue_min'', PyStr pdb_residue_min),
                (''pdb_residue_max'', PyStr pdb_residue_max)]])]
      in PyDict [(''_id'', PyStr (make_id chrom start end_pos)), (SOURCE_NAME, variant)])"

text \<open>
  How the body of the loop is left for one line (source lines 62-106): through one of the
  three \<^verbatim>\<open>continue\<close> statements, through the \<^verbatim>\<open>yield\<close>, or by an exception that no
  handler catches. Both handlers catch \<^verbatim>\<open>ValueError\<close> only, and the first one splits the
  line again for its second message.
\<close>

datatype 'f outcome =
    Skip_comment_or_blank
  | Skip_unpack "string list"
  | Skip_cast
  | Emit "'f pyval"
  | Raise py_error

definition process_line :: "(string \<Rightarrow> 'f option) \<Rightarrow> string \<Rightarrow> 'f outcome" where
  "process_line float_of line =
     (if py_startswith line ''#'' \<or> py_strip line = [] then Skip_comment_or_blank
      else case split_line line of
        Inl ValueError \<Rightarrow>
          (case py_split (py_strip line) DELIMITER of
             Inl e \<Rightarrow> Raise e
           | Inr got \<Rightarrow> Skip_unpack got)
      | Inl e \<Rightarrow> Raise e
      | Inr (chrom, start, end_pos, score, pdb_id, pdb_chain, uniprot_feature_name,
             pdb_residue_min, pdb_residue_max) \<Rightarrow>
          (case cast_fields float_of chrom start end_pos score of
             Inl ValueError \<Rightarrow> Skip_cast
           | Inl e \<Rightarrow> Raise e
           | Inr (chrom', start', end', score') \<Rightarrow>
               Emit (make_entry chrom' start' end' score' pdb_id pdb_chain
                       uniprot_feature_name pdb_residue_min pdb_residue_max)))"

text \<open>The local variables the loop updates.\<close>

record loop_state =
  count :: nat
  skipped :: "string list"

text \<open>
  One iteration (source lines 55-106). \<open>clock k\<close> is what the \<open>k\<close>-th call of
  \<^verbatim>\<open>time.time()\<close> inside the loop returns. The result is what the iteration makes
  observable, and either the exception that ends the generator or the state for the next
  line. Here \<open>time_left\<close> is the estimate in seconds; its conversion to a
  \<^verbatim>\<open>datetime.timedelta\<close>, which fails on an estimate that is too large, is added in
  \<open>loop_body_env\<close> below.
\<close>

definition loop_body ::
  "(string \<Rightarrow> 'f option) \<Rightarrow> (nat \<Rightarrow> rat) \<Rightarrow> nat \<Rightarrow> rat \<Rightarrow> loop_state \<Rightarrow> string \<Rightarrow>
     'f event list \<times> (py_error + loop_state)" where
  "loop_body float_of clock file_lines start_time st line =
     (let count' = count st + 1
      in case py_truediv (of_nat count') (of_nat file_lines) of
           Inl e \<Rightarrow> ([], Inl e)
         | Inr ratio \<Rightarrow>
             (case py_truediv ((clock count' - start_time) * (1 - ratio)) ratio of
                Inl e \<Rightarrow> ([], Inl e)
              | Inr time_left \<Rightarrow>
                  (let progress =
                         (if count' mod 10000 = 0
                          then [Log (Info_progress count' ratio (length (skipped st)) time_left)]
                          else [])
                   in case process_line float_of line of
                        Skip_comment_or_blank \<Rightarrow>
                          (progress, Inr (st\<lparr>count := count', skipped := skipped st @ [line]\<rparr>))
                      | Skip_unpack got \<Rightarrow>
                          (progress @ [Log (Error_unpack count' line), Log (Error_got got)],
                           Inr (st\<lparr>count := count', skipped := skipped st @ [line]\<rparr>))
                      | Skip_cast \<Rightarrow>
                          (progress @ [Log (Error_cast count')],
                           Inr (st\<lparr>count := count', skipped := skipped st @ [line]\<rparr>))
                      | Emit entry \<Rightarrow>
                          (progress @ [Yield entry], Inr (st\<lparr>count := count'\<rparr>))
                      | Raise e \<Rightarrow> (progress, Inl e))))"

text \<open>\<^verbatim>\<open>for line in file\<close>: the iterations in file order, ended by the first exception.\<close>

fun for_lines ::
  "(string \<Rightarrow> 'f option) \<Rightarrow> (nat \<Rightarrow> rat) \<Rightarrow> nat \<Rightarrow> rat \<Rightarrow> loop_state \<Rightarrow> string list \<Rightarrow>
     'f event list \<times> (py_error + loop_state)" where
  "for_lines float_of clock file_lines start_time st [] = ([], Inr st)"
| "for_lines float_of clock file_lines start_time st (line # rest) =
     (case loop_body float_of clock file_lines start_time st line of
        (evs, Inl e) \<Rightarrow> (evs, Inl e)
      | (evs, Inr st') \<Rightarrow>
          (case for_lines float_of clock file_lines start_time st' rest of
             (evs', r) \<Rightarrow> (evs @ evs', r)))"

text \<open>
  \<^verbatim>\<open>load_data\<close>, run until its generator is exhausted. The result is everything observed,
  in order, with the exception that escaped (\<open>Inl\<close>) or the final values of the loop's
  variables (\<open>Inr\<close>). \<open>clock 0\<close> is the reading taken for \<^verbatim>\<open>start_time\<close>.
\<close>

definition load_data ::
  "(string \<Rightarrow> 'f option) \<Rightarrow> (nat \<Rightarrow> rat) \<Rightarrow> filesystem \<Rightarrow> string \<Rightarrow>
     'f event list \<times> (py_error + loop_state)" where
  "load_data float_of clock fs data_folder =
     (let input_file = path_join data_folder FILENAME
      in case fs input_file of
           None \<Rightarrow>
             ([Log (Error_file_not_found input_file)],
              Inl (FileExistsError (FILE_NOT_FOUND_ERROR input_file)))
         | Some f \<Rightarrow>
             (let (msgs, file_lines) = inspect_file f;
                  opening = map Log msgs @ [Log (Info_start_reading FILENAME)];
                  start_time = clock 0
              in case for_lines float_of clock file_lines start_time
                        \<lparr>count = 0, skipped = []\<rparr> f of
                   (evs, Inl e) \<Rightarrow> (opening @ evs, Inl e)
                 | (evs, Inr st) \<Rightarrow>
                     (opening @ evs
                        @ [Log (Info_completed (length (skipped st)) file_lines)]
                        @ map (\<lambda>x. Log (Info_skipped_line (py_strip x))) (skipped st),
                      Inr st)))"

text \<open>
  The record one line contributes to the output, if any: the value of the \<^verbatim>\<open>yield\<close> the
  line reaches.
\<close>

definition line_record :: "(string \<Rightarrow> 'f option) \<Rightarrow> string \<Rightarrow> 'f pyval option" where
  "line_record float_of line = (case process_line float_of line of Emit entry \<Rightarrow> Some entry | _ \<Rightarrow> None)"

text \<open>
  Sample inputs used to instantiate the theorems below: a float parser that knows the
  literal \<open>0.5\<close>, a clock that advances one second per reading, and the example line of
  the specification.
\<close>

definition float_example :: "string \<Rightarrow> rat option" where
  "float_example s = (if s = ''0.5'' then Some (1 / 2) else None)"

definition clock_example :: "nat \<Rightarrow> rat" where
  "clock_example k = of_nat k"

definition example_line :: string where
  "example_line =
     ''chr1'' @ [TAB] @ ''100'' @ [TAB] @ ''200'' @ [TAB] @ ''0.5'' @ [TAB] @ ''PDB1'' @ [TAB]
       @ ''A'' @ [TAB] @ ''featX'' @ [TAB] @ ''10'' @ [TAB] @ ''20'' @ [NEWLINE]"



definition bad_score_line :: string where
  "bad_score_line =
     ''chr1'' @ [TAB] @ ''100'' @ [TAB] @ ''200'' @ [TAB] @ ''NOTANUM'' @ [TAB] @ ''PDB1'' @ [TAB]
       @ ''A'' @ [TAB] @ ''featX'' @ [TAB] @ ''10'' @ [TAB] @ ''20'' @ [NEWLINE]"

definition eight_field_line :: string where
  "eight_field_line =
     ''chr1'' @ [TAB] @ ''100'' @ [TAB] @ ''200'' @ [TAB] @ ''0.5'' @ [TAB] @ ''PDB1'' @ [TAB]
       @ ''A'' @ [TAB] @ ''featX'' @ [TAB] @ ''10'' @ [NEWLINE]"



text \<open>
  \<^verbatim>\<open>sub in s\<close>: the string \<open>sub\<close> occurs in \<open>s\<close> at some position. It is used to state
  what \<^verbatim>\<open>chrom.replace('chr', '')\<close> (source line 76) removes.
\<close>

fun py_contains :: "string \<Rightarrow> string \<Rightarrow> bool" where
  "py_contains [] sub = (sub = [])"
| "py_contains (c # cs) sub = (take (length sub) (c # cs) = sub \<or> py_contains cs sub)"

text \<open>An occurrence of \<open>chr\<close> at the front of a string.\<close>

definition chr_here :: "string \<Rightarrow> bool" where
  "chr_here s = (take (length ''chr'') s = ''chr'')"

text \<open>A data line whose chromosome field has \<open>chr\<close> at the front and in the middle.\<close>

definition inner_chr_line :: string where
  "inner_chr_line =
     ''chrUn_chr5'' @ [TAB] @ ''100'' @ [TAB] @ ''200'' @ [TAB] @ ''0.5'' @ [TAB] @ ''PDB1'' @ [TAB]
       @ ''A'' @ [TAB] @ ''featX'' @ [TAB] @ ''10'' @ [TAB] @ ''20'' @ [NEWLINE]"

section \<open>The parser in its environment\<close>

text \<open>
  The definitions above describe the runs in which the input file is read to its end and
  every estimate of the time left fits a \<^verbatim>\<open>datetime.timedelta\<close>. This section adds the
  two ways in which the environment can end a run: the clock, through the estimate of source
  line 57, and the file, through \<^verbatim>\<open>open\<close> and the text-mode read.

  \<^verbatim>\<open>datetime.timedelta(seconds=x)\<close> holds \<open>x\<close> in whole microseconds, rounded half to
  even, and normalises them to days, seconds and microseconds. It raises \<^verbatim>\<open>OverflowError\<close>
  unless the days lie between -999999999 and 999999999. The value is represented by its
  total number of microseconds.
\<close>

definition round_half_even :: "rat \<Rightarrow> int" where
  "round_half_even x =
     (let f = \<lfloor>x\<rfloor>; d = x - of_int f
      in if d < 1 / 2 then f else if 1 / 2 < d then f + 1 else if even f then f else f + 1)"

definition py_timedelta :: "rat \<Rightarrow> py_error + int" where
  "py_timedelta seconds =
     (let us = round_half_even (seconds * 1000000);
          days = us div 86400000000
      in if - 999999999 \<le> days \<and> days \<le> 999999999 then Inr us else Inl OverflowError)"

text \<open>
  Source lines 56 and 57: the ratio of lines read and the time left. Both are computed in
  every iteration, before the line is looked at and outside both \<^verbatim>\<open>try\<close> blocks.
\<close>

definition time_estimate :: "(nat \<Rightarrow> rat) \<Rightarrow> nat \<Rightarrow> rat \<Rightarrow> nat \<Rightarrow> py_error + rat \<times> int" where
  "time_estimate clock file_lines start_time count' =
     (case py_truediv (of_nat count') (of_nat file_lines) of
        Inl e \<Rightarrow> Inl e
      | Inr ratio \<Rightarrow>
          (case py_truediv ((clock count' - start_time) * (1 - ratio)) ratio of
             Inl e \<Rightarrow> Inl e
           | Inr seconds \<Rightarrow>
               (case py_timedelta seconds of
                  Inl e \<Rightarrow> Inl e
                | Inr time_left \<Rightarrow> Inr (ratio, time_left))))"

text \<open>
  One iteration (source lines 55-106), with the conversion of the estimate. It is
  \<open>loop_body\<close> with one more way to fail.
\<close>

definition loop_body_env ::
  "(string \<Rightarrow> 'f option) \<Rightarrow> (nat \<Rightarrow> rat) \<Rightarrow> nat \<Rightarrow> rat \<Rightarrow> loop_state \<Rightarrow> string \<Rightarrow>
     'f event list \<times> (py_error + loop_state)" where
  "loop_body_env float_of clock file_lines start_time st line =
     (let count' = count st + 1
      in case time_estimate clock file_lines start_time count' of
           Inl e \<Rightarrow> ([], Inl e)
         | Inr (ratio, time_left) \<Rightarrow>
             (let progress =
                    (if count' mod 10000 = 0
                     then [Log (Info_progress count' ratio (length (skipped st))
                                  (of_int time_left / 1000000))]
                     else [])
              in case process_line float_of line of
                   Skip_comment_or_blank \<Rightarrow>
                     (progress, Inr (st\<lparr>count := count', skipped := skipped st @ [line]\<rparr>))
                 | Skip_unpack got \<Rightarrow>
                     (progress @ [Log (Error_unpack count' line), Log (Error_got got)],
                      Inr (st\<lparr>count := count', skipped := skipped st @ [line]\<rparr>))
                 | Skip_cast \<Rightarrow>
                     (progress @ [Log (Error_cast count')],
                      Inr (st\<lparr>count := count', skipped := skipped st @ [line]\<rparr>))
                 | Emit entry \<Rightarrow>
                     (progress @ [Yield entry], Inr (st\<lparr>count := count'\<rparr>))
                 | Raise e \<Rightarrow> (progress, Inl e)))"

fun for_lines_env ::
  "(string \<Rightarrow> 'f option) \<Rightarrow> (nat \<Rightarrow> rat) \<Rightarrow> nat \<Rightarrow> rat \<Rightarrow> loop_state \<Rightarrow> string list \<Rightarrow>
     'f event list \<times> (py_error + loop_state)" where
  "for_lines_env float_of clock file_lines start_time st [] = ([], Inr st)"
| "for_lines_env float_of clock file_lines start_time st (line # rest) =
     (case loop_body_env float_of clock file_lines start_time st line of
        (evs, Inl e) \<Rightarrow> (evs, Inl e)
      | (evs, Inr st') \<Rightarrow>
          (case for_lines_env float_of clock file_lines start_time st' rest of
             (evs', r) \<Rightarrow> (evs @ evs', r)))"

text \<open>
  What opening a file and iterating over it delivers: \<^verbatim>\<open>open\<close> raises, or the file is
  opened and the iteration delivers lines until the end of the file (\<open>None\<close>) or until a
  read raises (\<open>Some e\<close>). The parser opens its input twice, in \<^verbatim>\<open>_inspect_file\<close> and in
  \<^verbatim>\<open>load_data\<close>; a path that exists is mapped to what the first and what the second
  \<^verbatim>\<open>open\<close> deliver. For a file that is not changed during the run the two are equal.
\<close>

datatype file_access = Open_fails py_error | Opens "string list" "py_error option"

type_synonym filesystem_env = "string \<rightharpoonup> file_access \<times> file_access"

text \<open>
  \<^verbatim>\<open>_inspect_file\<close> (source lines 22-29) on what \<^verbatim>\<open>open\<close> delivers. An exception leaves
  the function before the second message is logged.
\<close>

definition inspect_file_env :: "file_access \<Rightarrow> log_msg list \<times> (py_error + nat)" where
  "inspect_file_env a =
     (case a of
        Open_fails e \<Rightarrow> ([Info_start_counting], Inl e)
      | Opens f (Some e) \<Rightarrow> ([Info_start_counting], Inl e)
      | Opens f None \<Rightarrow> (fst (inspect_file f), Inr (snd (inspect_file f))))"

text \<open>
  \<^verbatim>\<open>load_data\<close> (source lines 41-109) in this environment. A failure of the second
  \<^verbatim>\<open>open\<close> (line 49) comes before the message of line 50; a failure of a read (line 54)
  comes after the iterations for the lines delivered so far, and before the closing
  messages.
\<close>

definition load_data_env ::
  "(string \<Rightarrow> 'f option) \<Rightarrow> (nat \<Rightarrow> rat) \<Rightarrow> filesystem_env \<Rightarrow> string \<Rightarrow>
     'f event list \<times> (py_error + loop_state)" where
  "load_data_env float_of clock fs data_folder =
     (let input_file = path_join data_folder FILENAME
      in case fs input_file of
           None \<Rightarrow>
             ([Log (Error_file_not_found input_file)],
              Inl (FileExistsError (FILE_NOT_FOUND_ERROR input_file)))
         | Some (first_pass, second_pass) \<Rightarrow>
             (case inspect_file_env first_pass of
                (msgs, Inl e) \<Rightarrow> (map Log msgs, Inl e)
              | (msgs, Inr file_lines) \<Rightarrow>
                  (case second_pass of
                     Open_fails e \<Rightarrow> (map Log msgs, Inl e)
                   | Opens f failure \<Rightarrow>
                       (let opening = map Log msgs @ [Log (Info_start_reading FILENAME)];
                            start_time = clock 0
                        in case for_lines_env float_of clock file_lines start_time
                                  \<lparr>count = 0, skipped = []\<rparr> f of
                             (evs, Inl e) \<Rightarrow> (opening @ evs, Inl e)
                           | (evs, Inr st) \<Rightarrow>
                               (case failure of
                                  Some e \<Rightarrow> (opening @ evs, Inl e)
                                | None \<Rightarrow>
                                    (opening @ evs
                                       @ [Log (Info_completed (length (skipped st)) file_lines)]
                                       @ map (\<lambda>x. Log (Info_skipped_line (py_strip x)))
                                           (skipped st),
                                     Inr st))))))"

text \<open>
  The number of iterations the loop completes, among the next \<open>m\<close> ones after \<open>c\<close> lines,
  before the first estimate that does not fit. It is used to state how far a run gets.
\<close>

fun lines_before_overflow :: "(nat \<Rightarrow> rat) \<Rightarrow> nat \<Rightarrow> rat \<Rightarrow> nat \<Rightarrow> nat \<Rightarrow> nat" where
  "lines_before_overflow clock file_lines start_time c 0 = 0"
| "lines_before_overflow clock file_lines start_time c (Suc m) =
     (case time_estimate clock file_lines start_time (c + 1) of
        Inl e \<Rightarrow> 0
      | Inr v \<Rightarrow> Suc (lines_before_overflow clock file_lines start_time (c + 1) m))"

text \<open>
  More sample inputs. A clock that reads 0 when \<open>start_time\<close> is taken and is set to the
  current date, 1800000000 seconds after the epoch, before the first line is read. A file of
  five lines, two of them with a record; a line that starts with a tab; a file of 100000
  lines; an input path that is a directory; an input file whose bytes do not decode; and an
  input file whose second read fails after two lines.
\<close>

definition clock_jump :: "nat \<Rightarrow> rat" where
  "clock_jump k = (if k = 0 then 0 else 1800000000)"

definition comment_line :: string where
  "comment_line = ''#comment'' @ [NEWLINE]"

definition second_line :: string where
  "second_line =
     ''chr2'' @ [TAB] @ ''300'' @ [TAB] @ ''400'' @ [TAB] @ ''0.5'' @ [TAB] @ ''PDB2'' @ [TAB]
       @ ''B'' @ [TAB] @ ''featY'' @ [TAB] @ ''30'' @ [TAB] @ ''40'' @ [NEWLINE]"

definition mixed_file :: "string list" where
  "mixed_file = [comment_line, example_line, eight_field_line, second_line, bad_score_line]"


definition long_file :: "string list" where
  "long_file = example_line # replicate 99999 comment_line"

definition long_input :: filesystem_env where
  "long_input = [path_join ''data'' FILENAME \<mapsto> (Opens long_file None, Opens long_file None)]"

definition directory_input :: filesystem_env where
  "directory_input =
     [path_join ''data'' FILENAME \<mapsto>
        (Open_fails (OSError ''IsADirectoryError''), Open_fails (OSError ''IsADirectoryError''))]"

definition undecodable_input :: filesystem_env where
  "undecodable_input =
     [path_join ''data'' FILENAME \<mapsto>
        (Opens [example_line] (Some UnicodeDecodeError),
         Opens [example_line] (Some UnicodeDecodeError))]"

definition failing_read_input :: filesystem_env where
  "failing_read_input =
     [path_join ''data'' FILENAME \<mapsto>
        (Opens mixed_file None,
         Opens [comment_line, example_line] (Some (OSError ''Input/output error'')))]"

section \<open>Properties of the parser\<close>

subsection \<open>Exceptions and the loop\<close>

lemma DELIMITER_nonempty: "DELIMITER \<noteq> []"
  by (simp add: DELIMITER_def)

lemma py_split_DELIMITER: "py_split s DELIMITER = Inr (split_from DELIMITER [] s)"
  by (simp add: py_split_def DELIMITER_nonempty)

lemma unpack9_error: "unpack9 xs = Inl e \<Longrightarrow> e = ValueError"
  by (simp add: unpack9_def split: if_splits)

lemma split_line_error: "split_line line = Inl e \<Longrightarrow> e = ValueError"
  by (auto simp: split_line_def py_split_DELIMITER dest: unpack9_error)

lemma py_int_error: "py_int s = Inl e \<Longrightarrow> e = ValueError"
  by (auto simp: py_int_def Let_def split: option.splits)

lemma py_float_error: "py_float float_of s = Inl e \<Longrightarrow> e = ValueError"
  by (auto simp: py_float_def split: option.splits)

lemma cast_fields_error: "cast_fields float_of a b c d = Inl e \<Longrightarrow> e = ValueError"
  by (auto simp: cast_fields_def Let_def split: sum.splits dest: py_int_error py_float_error)

lemma process_line_no_raise: "process_line float_of line \<noteq> Raise e"
  by (auto simp: process_line_def py_split_DELIMITER split: sum.splits py_error.splits prod.splits
      dest: split_line_error cast_fields_error)

lemma yields_append: "yields (xs @ ys) = yields xs @ yields ys"
  by (induction xs rule: yields.induct) simp_all

lemma yields_map_Log: "yields (map Log ms) = []"
  by (induction ms) simp_all

lemma yields_map_Log_of: "yields (map (\<lambda>x. Log (g x)) xs) = []"
  by (induction xs) simp_all

lemma enumerate_last_index:
  "foldl (\<lambda>i (k, l). k) a (enumerate n xs) = (if xs = [] then a else n + length xs - 1)"
  by (induction xs arbitrary: a n) auto

lemma inspect_file_lines: "snd (inspect_file f) = (if f = [] then 1 else length f)"
  by (cases f) (simp_all add: inspect_file_def enumerate_last_index Let_def)

lemma loop_body_result:
  assumes "0 < file_lines"
  shows "\<exists>evs. loop_body float_of clock file_lines start_time st line =
           (evs, Inr (st\<lparr>count := count st + 1,
                 skipped := (case line_record float_of line of
                               None \<Rightarrow> skipped st @ [line] | Some r \<Rightarrow> skipped st)\<rparr>))
         \<and> yields evs = (case line_record float_of line of None \<Rightarrow> [] | Some r \<Rightarrow> [r])"
  using assms process_line_no_raise [of float_of line]
  by (cases "process_line float_of line")
     (auto simp: loop_body_def py_truediv_def Let_def line_record_def yields_append)

lemma for_lines_result:
  assumes "0 < file_lines"
  shows "\<exists>evs. for_lines float_of clock file_lines start_time st f =
           (evs, Inr (st\<lparr>count := count st + length f,
                 skipped := skipped st @ filter (\<lambda>l. line_record float_of l = None) f\<rparr>))
         \<and> yields evs = List.map_filter (line_record float_of) f"
proof (induction f arbitrary: st)
  case Nil
  show ?case by (simp add: List.map_filter_simps)
next
  case (Cons line rest)
  obtain evs where body:
    "loop_body float_of clock file_lines start_time st line =
       (evs, Inr (st\<lparr>count := count st + 1,
             skipped := (case line_record float_of line of
                           None \<Rightarrow> skipped st @ [line] | Some r \<Rightarrow> skipped st)\<rparr>))"
    and ys: "yields evs = (case line_record float_of line of None \<Rightarrow> [] | Some r \<Rightarrow> [r])"
    using loop_body_result [OF assms] by blast
  let ?st' = "st\<lparr>count := count st + 1,
             skipped := (case line_record float_of line of
                           None \<Rightarrow> skipped st @ [line] | Some r \<Rightarrow> skipped st)\<rparr>"
  obtain evs' where rest:
    "for_lines float_of clock file_lines start_time ?st' rest =
       (evs', Inr (?st'\<lparr>count := count ?st' + length rest,
             skipped := skipped ?st' @ filter (\<lambda>l. line_record float_of l = None) rest\<rparr>))"
    and ys': "yields evs' = List.map_filter (line_record float_of) rest"
    using Cons.IH [of ?st'] by blast
  show ?case
    using body rest ys ys'
    by (cases "line_record float_of line")
       (simp_all add: yields_append List.map_filter_simps)
qed

lemma load_data_missing:
  assumes "fs (path_join data_folder FILENAME) = None"
  shows "load_data float_of clock fs data_folder =
           ([Log (Error_file_not_found (path_join data_folder FILENAME))],
            Inl (FileExistsError (FILE_NOT_FOUND_ERROR (path_join data_folder FILENAME))))"
  using assms by (simp add: load_data_def Let_def)

lemma load_data_result:
  assumes "fs (path_join data_folder FILENAME) = Some f"
  shows "\<exists>evs. load_data float_of clock fs data_folder =
           (evs, Inr \<lparr>count = length f,
                      skipped = filter (\<lambda>l. line_record float_of l = None) f\<rparr>)
         \<and> yields evs = List.map_filter (line_record float_of) f"
proof -
  have pos: "0 < snd (inspect_file f)"
    by (simp add: inspect_file_lines)
  obtain evs where run:
    "for_lines float_of clock (snd (inspect_file f)) (clock 0) \<lparr>count = 0, skipped = []\<rparr> f =
       (evs, Inr \<lparr>count = length f,
                  skipped = filter (\<lambda>l. line_record float_of l = None) f\<rparr>)"
    and ys: "yields evs = List.map_filter (line_record float_of) f"
    using for_lines_result [OF pos, of float_of clock "clock 0" "\<lparr>count = 0, skipped = []\<rparr>" f]
    by auto
  show ?thesis
    using assms run ys
    by (simp add: load_data_def Let_def split_beta yields_append yields_map_Log yields_map_Log_of)
qed

subsection \<open>The sample lines\<close>

lemma line_record_comment_line: "line_record float_example comment_line = None"
  by code_simp

lemma line_record_example_line:
  "line_record float_example example_line =
     Some (make_entry ''1'' 100 200 (1 / 2) ''PDB1'' ''A'' ''featX'' ''10'' ''20'')"
  by code_simp







subsection \<open>The run as a whole\<close>


lemma load_data_yields:
  assumes "fs (path_join data_folder FILENAME) = Some f"
  shows "yields (fst (load_data float_of clock fs data_folder)) =
           List.map_filter (line_record float_of) f"
    and "snd (load_data float_of clock fs data_folder) =
           Inr \<lparr>count = length f,
                  skipped = filter (\<lambda>l. line_record float_of l = None) f\<rparr>"
proof -
  obtain evs where run:
    "load_data float_of clock fs data_folder =
       (evs, Inr \<lparr>count = length f,
                  skipped = filter (\<lambda>l. line_record float_of l = None) f\<rparr>)"
    and ys: "yields evs = List.map_filter (line_record float_of) f"
    using assms
      load_data_result [where fs = fs and data_folder = data_folder and f = f
        and float_of = float_of and clock = clock]
    by blast
  show "yields (fst (load_data float_of clock fs data_folder)) =
           List.map_filter (line_record float_of) f"
    using run ys by simp
  show "snd (load_data float_of clock fs data_folder) =
           Inr \<lparr>count = length f,
                  skipped = filter (\<lambda>l. line_record float_of l = None) f\<rparr>"
    using run by simp
qed





text \<open>
  C10. \<^verbatim>\<open>_inspect_file\<close> returns at least 1, and 1 for a file without lines. Hence both
  divisions of an iteration succeed, whatever the current count and the elapsed time, and
  \<^verbatim>\<open>load_data\<close> never ends in \<^verbatim>\<open>ZeroDivisionError\<close>.
\<close>

theorem C10_line_count_positive_no_zero_division:
  "1 \<le> snd (inspect_file f) \<and> snd (inspect_file []) = 1
   \<and> (\<exists>ratio time_left.
         py_truediv (of_nat (count st + 1)) (of_nat (snd (inspect_file f))) = Inr ratio
       \<and> py_truediv (elapsed * (1 - ratio)) ratio = Inr time_left)
   \<and> snd (load_data float_of clock fs data_folder) \<noteq> Inl ZeroDivisionError"
proof -
  have a: "1 \<le> snd (inspect_file f)"
    by (cases f) (simp_all add: inspect_file_lines)
  have b: "snd (inspect_file []) = 1"
    by (simp add: inspect_file_lines)
  have c: "\<exists>ratio time_left.
         py_truediv (of_nat (count st + 1)) (of_nat (snd (inspect_file f))) = Inr ratio
       \<and> py_truediv (elapsed * (1 - ratio)) ratio = Inr time_left"
    by (cases f) (simp_all add: py_truediv_def inspect_file_lines)
  have d: "snd (load_data float_of clock fs data_folder) \<noteq> Inl ZeroDivisionError"
  proof (cases "fs (path_join data_folder FILENAME)")
    case None
    then show ?thesis by (simp add: load_data_missing)
  next
    case (Some f')
    then show ?thesis by (simp add: load_data_yields)
  qed
  from a b c d show ?thesis by blast
qed

subsection \<open>Single lines\<close>









lemma cast_fields_ok:
  assumes "py_int start = Inr s" and "py_int end_pos = Inr e" and "float_of score = Some x"
  shows "cast_fields float_of chrom start end_pos score =
           Inr (py_replace chrom ''chr'' [], s, e, x)"
  using assms by (simp add: cast_fields_def py_float_def)




subsection \<open>Trailing blank fields\<close>















subsection \<open>Removal of chr from the chromosome field\<close>

lemma replace_chr_Cons:
  "replace_from ''chr'' [] (c # cs) =
     (if chr_here (c # cs) then replace_from ''chr'' [] (drop 2 cs)
      else c # replace_from ''chr'' [] cs)"
  by (simp add: chr_here_def numeral_2_eq_2)

lemma contains_chr_Cons:
  "py_contains (c # cs) ''chr'' = (chr_here (c # cs) \<or> py_contains cs ''chr'')"
  by (simp add: chr_here_def)

lemma chr_here_self: "chr_here (''chr'' @ y)"
  by (simp add: chr_here_def)

lemma chr_here_decompose: "chr_here s \<Longrightarrow> s = ''chr'' @ drop 3 s"
  unfolding chr_here_def
  by (metis append_take_drop_id length_Cons list.size(3) numeral_3_eq_3)

lemma chr_not_at_front:
  assumes "\<not> chr_here (c # cs)"
  shows "\<not> chr_here (c # cs @ ''chr'' @ y)"
proof (cases cs)
  case Nil
  then show ?thesis by (simp add: chr_here_def)
next
  case (Cons d ds)
  show ?thesis
  proof (cases ds)
    case Nil
    with Cons show ?thesis by (simp add: chr_here_def)
  next
    case (Cons e es)
    with \<open>cs = d # ds\<close> assms show ?thesis by (simp add: chr_here_def)
  qed
qed

lemma chr_here_long:
  assumes "2 \<le> length x"
  shows "chr_here (c # x @ y) = chr_here (c # x)"
proof -
  from assms obtain d e es where "x = d # e # es"
    by (cases x; cases "tl x") auto
  then show ?thesis by (simp add: chr_here_def)
qed

lemma chr_here_short:
  assumes "length x < 2"
  shows "\<not> chr_here (c # x)"
proof -
  from assms have "x = [] \<or> (\<exists>d. x = [d])"
    by (cases x; cases "tl x") auto
  then show ?thesis by (auto simp: chr_here_def)
qed

lemma replace_chr_before:
  "\<not> py_contains x ''chr'' \<Longrightarrow>
     replace_from ''chr'' [] (x @ ''chr'' @ y) = x @ replace_from ''chr'' [] y"
proof (induction x)
  case Nil
  have "replace_from ''chr'' [] (''chr'' @ y) = replace_from ''chr'' [] y"
    by simp
  then show ?case by simp
next
  case (Cons c cs)
  from Cons.prems have here: "\<not> chr_here (c # cs)" and rest: "\<not> py_contains cs ''chr''"
    by (simp_all add: contains_chr_Cons del: py_contains.simps)
  from here have "\<not> chr_here (c # cs @ ''chr'' @ y)"
    by (rule chr_not_at_front)
  then have "replace_from ''chr'' [] (c # cs @ ''chr'' @ y) =
               c # replace_from ''chr'' [] (cs @ ''chr'' @ y)"
    by (simp only: replace_chr_Cons if_False)
  also have "\<dots> = c # cs @ replace_from ''chr'' [] y"
    by (simp only: Cons.IH [OF rest])
  finally show ?case by (simp only: append_Cons)
qed

lemma replace_chr_absent:
  "\<not> py_contains x ''chr'' \<Longrightarrow> replace_from ''chr'' [] x = x"
proof (induction x)
  case Nil
  show ?case by simp
next
  case (Cons c cs)
  from Cons.prems have here: "\<not> chr_here (c # cs)" and rest: "\<not> py_contains cs ''chr''"
    by (simp_all add: contains_chr_Cons del: py_contains.simps)
  from here show ?case
    by (simp only: replace_chr_Cons if_False Cons.IH [OF rest])
qed

lemma replace_chr_pieces:
  "\<forall>p\<in>set ps. \<not> py_contains p ''chr'' \<Longrightarrow>
     replace_from ''chr'' [] (py_join ''chr'' ps) = concat ps"
proof (induction "''chr''" ps rule: py_join.induct)
  case 1
  show ?case by simp
next
  case (2 x)
  then show ?case by (simp add: replace_chr_absent)
next
  case (3 x y ys)
  then have x: "\<not> py_contains x ''chr''"
    and rest: "\<forall>p\<in>set (y # ys). \<not> py_contains p ''chr''"
    by simp_all
  have "replace_from ''chr'' [] (py_join ''chr'' (x # y # ys)) =
          replace_from ''chr'' [] (x @ ''chr'' @ py_join ''chr'' (y # ys))"
    by (simp only: py_join.simps)
  also have "\<dots> = x @ replace_from ''chr'' [] (py_join ''chr'' (y # ys))"
    by (rule replace_chr_before [OF x])
  also have "\<dots> = x @ concat (y # ys)"
    by (simp only: "3.hyps" [OF rest])
  finally show ?case by simp
qed

lemma first_chr:
  "py_contains s ''chr'' \<Longrightarrow> \<exists>x y. s = x @ ''chr'' @ y \<and> \<not> py_contains x ''chr''"
proof (induction s)
  case Nil
  then show ?case by simp
next
  case (Cons c cs)
  show ?case
  proof (cases "chr_here (c # cs)")
    case True
    then have "c # cs = [] @ ''chr'' @ drop 3 (c # cs)"
      using chr_here_decompose by fastforce
    moreover have "\<not> py_contains [] ''chr''" by simp
    ultimately show ?thesis by blast
  next
    case False
    with Cons.prems have "py_contains cs ''chr''"
      by (simp add: contains_chr_Cons del: py_contains.simps)
    from Cons.IH [OF this] obtain x y where cs: "cs = x @ ''chr'' @ y"
      and x: "\<not> py_contains x ''chr''" by blast
    have "\<not> chr_here (c # x)"
    proof (cases "length x < 2")
      case True
      then show ?thesis by (rule chr_here_short)
    next
      case long: False
      then have "chr_here (c # x @ ''chr'' @ y) = chr_here (c # x)"
        by (intro chr_here_long) simp
      with False cs show ?thesis by simp
    qed
    with x have "\<not> py_contains (c # x) ''chr''"
      by (simp add: contains_chr_Cons del: py_contains.simps)
    with cs have "c # cs = (c # x) @ ''chr'' @ y \<and> \<not> py_contains (c # x) ''chr''"
      by simp
    then show ?thesis by blast
  qed
qed

lemma chr_pieces_exist:
  "\<exists>ps. ps \<noteq> [] \<and> s = py_join ''chr'' ps \<and> (\<forall>p\<in>set ps. \<not> py_contains p ''chr'')"
proof (induction "length s" arbitrary: s rule: less_induct)
  case less
  show ?case
  proof (cases "py_contains s ''chr''")
    case False
    then have "[s] \<noteq> [] \<and> s = py_join ''chr'' [s] \<and> (\<forall>p\<in>set [s]. \<not> py_contains p ''chr'')"
      by simp
    then show ?thesis by blast
  next
    case True
    from first_chr [OF this] obtain x y where s: "s = x @ ''chr'' @ y"
      and x: "\<not> py_contains x ''chr''" by blast
    have "length y < length s" by (simp add: s)
    from less.hyps [OF this] obtain ps where ps: "ps \<noteq> []" "y = py_join ''chr'' ps"
      "\<forall>p\<in>set ps. \<not> py_contains p ''chr''" by blast
    from ps(1) obtain q qs where "ps = q # qs" by (cases ps) auto
    with s x ps have "x # ps \<noteq> [] \<and> s = py_join ''chr'' (x # ps)
        \<and> (\<forall>p\<in>set (x # ps). \<not> py_contains p ''chr'')"
      by simp
    then show ?thesis by blast
  qed
qed

lemma py_replace_chr: "py_replace s ''chr'' [] = replace_from ''chr'' [] s"
  by (simp add: py_replace_def)

lemma replace_chr_single_pass: "py_replace ''cchrhr'' ''chr'' [] = ''chr''"
  by code_simp

text \<open>
  C5. Take a line that reaches the second \<^verbatim>\<open>try\<close> block: it is neither a comment nor
  blank and its trimmed text unpacks into nine fields. The chromosome field is, in at least
  one way, a sequence of pieces free of \<open>chr\<close> with \<open>chr\<close> between them; the occurrences of
  \<open>chr\<close> in the field are these separators, at the front, in the middle or at the end.
  Whatever the pieces, the cleaned value is their concatenation: every occurrence is
  removed and all other text is kept, in order. The conversion step returns this value as
  the chromosome, and a record emitted for the line has it both in its \<open>_id\<close>, after the
  fixed prefix \<open>chr\<close>, and under \<open>chrom\<close> in the sub-object of the source. The replacement
  is a single pass (lemma \<open>replace_chr_single_pass\<close>): text that the removal brings
  together is not cleaned again.
\<close>

theorem C5_chr_removed_everywhere:
  assumes "\<not> py_startswith line ''#''" and "py_strip line \<noteq> []"
    and "split_line line = Inr (chrom, start, end_pos, score, pdb_id, pdb_chain,
           uniprot_feature_name, pdb_residue_min, pdb_residue_max)"
  shows "(\<exists>ps. ps \<noteq> [] \<and> chrom = py_join ''chr'' ps \<and> (\<forall>p\<in>set ps. \<not> py_contains p ''chr''))
       \<and> (\<forall>ps. chrom = py_join ''chr'' ps \<and> (\<forall>p\<in>set ps. \<not> py_contains p ''chr'')
             \<longrightarrow> py_replace chrom ''chr'' [] = concat ps)
       \<and> (\<forall>c s e x. cast_fields float_of chrom start end_pos score = Inr (c, s, e, x)
             \<longrightarrow> c = py_replace chrom ''chr'' [])
       \<and> (\<forall>entry. process_line float_of line = Emit entry \<longrightarrow>
             (\<exists>s e v. py_int start = Inr s \<and> py_int end_pos = Inr e
                \<and> py_get entry ''_id'' =
                    Some (PyStr (''chr'' @ py_replace chrom ''chr'' [] @ '':g.''
                                 @ py_str_int s @ ''_'' @ py_str_int e))
                \<and> py_get entry ''3dts'' = Some v
                \<and> py_get v ''chrom'' = Some (PyStr (py_replace chrom ''chr'' []))))"
proof (intro conjI)
  show "\<exists>ps. ps \<noteq> [] \<and> chrom = py_join ''chr'' ps \<and> (\<forall>p\<in>set ps. \<not> py_contains p ''chr'')"
    by (rule chr_pieces_exist)
next
  show "\<forall>ps. chrom = py_join ''chr'' ps \<and> (\<forall>p\<in>set ps. \<not> py_contains p ''chr'')
          \<longrightarrow> py_replace chrom ''chr'' [] = concat ps"
    by (auto simp only: py_replace_chr replace_chr_pieces)
next
  show "\<forall>c s e x. cast_fields float_of chrom start end_pos score = Inr (c, s, e, x)
          \<longrightarrow> c = py_replace chrom ''chr'' []"
    by (auto simp: cast_fields_def Let_def split: sum.splits)
next
  show "\<forall>entry. process_line float_of line = Emit entry \<longrightarrow>
             (\<exists>s e v. py_int start = Inr s \<and> py_int end_pos = Inr e
                \<and> py_get entry ''_id'' =
                    Some (PyStr (''chr'' @ py_replace chrom ''chr'' [] @ '':g.''
                                 @ py_str_int s @ ''_'' @ py_str_int e))
                \<and> py_get entry ''3dts'' = Some v
                \<and> py_get v ''chrom'' = Some (PyStr (py_replace chrom ''chr'' [])))"
  proof (intro allI impI)
    fix entry :: "'a pyval"
    assume emit: "process_line float_of line = Emit entry"
    from emit assms obtain c s e x where
      cast: "cast_fields float_of chrom start end_pos score = Inr (c, s, e, x)"
      and entry: "entry = make_entry c s e x pdb_id pdb_chain uniprot_feature_name
                    pdb_residue_min pdb_residue_max"
      by (auto simp: process_line_def split: sum.splits py_error.splits)
    from cast have c: "c = py_replace chrom ''chr'' []"
      and s: "py_int start = Inr s" and e: "py_int end_pos = Inr e"
      by (auto simp: cast_fields_def Let_def split: sum.splits)
    show "\<exists>s e v. py_int start = Inr s \<and> py_int end_pos = Inr e
                \<and> py_get entry ''_id'' =
                    Some (PyStr (''chr'' @ py_replace chrom ''chr'' [] @ '':g.''
                                 @ py_str_int s @ ''_'' @ py_str_int e))
                \<and> py_get entry ''3dts'' = Some v
                \<and> py_get v ''chrom'' = Some (PyStr (py_replace chrom ''chr'' []))"
      using s e by (simp add: entry c make_entry_def make_id_def SOURCE_NAME_def)
  qed
qed

text \<open>
  C5 at a line whose chromosome field is \<open>chrUn_chr5\<close>: both occurrences are removed, the
  record has the chromosome \<open>Un_5\<close> and the identifier \<open>chrUn_5:g.100_200\<close>.
\<close>

theorem C5_witness:
  "\<not> py_startswith inner_chr_line ''#'' \<and> py_strip inner_chr_line \<noteq> []
   \<and> split_line inner_chr_line =
       Inr (''chrUn_chr5'', ''100'', ''200'', ''0.5'', ''PDB1'', ''A'', ''featX'', ''10'', ''20'')
   \<and> ''chrUn_chr5'' = py_join ''chr'' [[], ''Un_'', ''5'']
   \<and> \<not> py_contains [] ''chr'' \<and> \<not> py_contains ''Un_'' ''chr'' \<and> \<not> py_contains ''5'' ''chr''
   \<and> py_replace ''chrUn_chr5'' ''chr'' [] = ''Un_5''
   \<and> cast_fields float_example ''chrUn_chr5'' ''100'' ''200'' ''0.5'' = Inr (''Un_5'', 100, 200, 1 / 2)
   \<and> (\<exists>entry v. process_line float_example inner_chr_line = Emit entry
         \<and> py_get entry ''_id'' = Some (PyStr ''chrUn_5:g.100_200'')
         \<and> py_get entry ''3dts'' = Some v
         \<and> py_get v ''chrom'' = Some (PyStr ''Un_5''))"
proof -
  have h1: "\<not> py_startswith inner_chr_line ''#''" by code_simp
  have h2: "py_strip inner_chr_line \<noteq> []" by code_simp
  have h3: "split_line inner_chr_line =
       Inr (''chrUn_chr5'', ''100'', ''200'', ''0.5'', ''PDB1'', ''A'', ''featX'', ''10'', ''20'')"
    by code_simp
  have j: "''chrUn_chr5'' = py_join ''chr'' [[], ''Un_'', ''5'']" by simp
  have k: "\<forall>p\<in>set [[], ''Un_'', ''5'']. \<not> py_contains p ''chr''" by simp
  have i1: "py_int ''100'' = Inr 100" by code_simp
  have i2: "py_int ''200'' = Inr 200" by code_simp
  have v2: "py_str_int 100 = ''100''" by code_simp
  have v3: "py_str_int 200 = ''200''" by code_simp
  have cast: "cast_fields float_example ''chrUn_chr5'' ''100'' ''200'' ''0.5'' =
                Inr (py_replace ''chrUn_chr5'' ''chr'' [], 100, 200, 1 / 2)"
    by (rule cast_fields_ok [OF i1 i2]) (simp add: float_example_def)
  have emit: "process_line float_example inner_chr_line =
                Emit (make_entry (py_replace ''chrUn_chr5'' ''chr'' []) 100 200 (1 / 2)
                        ''PDB1'' ''A'' ''featX'' ''10'' ''20'')"
    using h1 h2 h3 cast by (simp add: process_line_def)
  let ?ent = "make_entry (py_replace ''chrUn_chr5'' ''chr'' []) 100 200 (1 / 2 :: rat)
                ''PDB1'' ''A'' ''featX'' ''10'' ''20''"
  note c5 = C5_chr_removed_everywhere [where float_of = float_example, OF h1 h2 h3]
  from c5 j k have r: "py_replace ''chrUn_chr5'' ''chr'' [] = concat [[], ''Un_'', ''5'']"
    by blast
  then have r': "py_replace ''chrUn_chr5'' ''chr'' [] = ''Un_5''" by simp
  from c5 emit obtain s e v where
    "py_int ''100'' = Inr s" "py_int ''200'' = Inr e"
    "py_get ?ent ''_id'' =
       Some (PyStr (''chr'' @ py_replace ''chrUn_chr5'' ''chr'' [] @ '':g.''
                                 @ py_str_int s @ ''_'' @ py_str_int e))"
    "py_get ?ent ''3dts'' = Some v"
    "py_get v ''chrom'' = Some (PyStr (py_replace ''chrUn_chr5'' ''chr'' []))"
    by blast
  with i1 i2 have
    "py_get ?ent ''_id'' = Some (PyStr ''chrUn_5:g.100_200'')"
    and "py_get ?ent ''3dts'' = Some v"
    and "py_get v ''chrom'' = Some (PyStr ''Un_5'')"
    by (simp_all add: r' v2 v3)
  with emit have last: "\<exists>entry v. process_line float_example inner_chr_line = Emit entry
         \<and> py_get entry ''_id'' = Some (PyStr ''chrUn_5:g.100_200'')
         \<and> py_get entry ''3dts'' = Some v
         \<and> py_get v ''chrom'' = Some (PyStr ''Un_5'')"
    by blast
  from cast r' have cast': "cast_fields float_example ''chrUn_chr5'' ''100'' ''200'' ''0.5'' =
      Inr (''Un_5'', 100, 200, 1 / 2)" by simp
  have k': "\<not> py_contains [] ''chr'' \<and> \<not> py_contains ''Un_'' ''chr'' \<and> \<not> py_contains ''5'' ''chr''"
    by simp
  from h1 h2 h3 j k' r' cast' last show ?thesis by blast
qed

subsection \<open>Failures of the environment\<close>

lemma time_estimate_error:
  assumes "0 < n" and "time_estimate clock n t0 (Suc k) = Inl e"
  shows "e = OverflowError"
  using assms
  by (auto simp: time_estimate_def py_truediv_def py_timedelta_def Let_def
           split: sum.splits if_splits)

lemma loop_body_env_overflow:
  assumes "0 < n" and "time_estimate clock n t0 (count st + 1) = Inl e"
  shows "loop_body_env float_of clock n t0 st line = ([], Inl OverflowError)"
proof -
  from assms have "e = OverflowError"
    using time_estimate_error [of n clock t0 "count st" e] by simp
  with assms(2) show ?thesis
    by (simp add: loop_body_env_def)
qed

lemma loop_body_env_ok:
  assumes "time_estimate clock n t0 (count st + 1) = Inr v"
  shows "\<exists>evs. loop_body_env float_of clock n t0 st line =
           (evs, Inr (st\<lparr>count := count st + 1,
                 skipped := (case line_record float_of line of
                               None \<Rightarrow> skipped st @ [line] | Some r \<Rightarrow> skipped st)\<rparr>))
         \<and> yields evs = (case line_record float_of line of None \<Rightarrow> [] | Some r \<Rightarrow> [r])"
  using assms process_line_no_raise [of float_of line]
  by (cases v; cases "process_line float_of line")
     (auto simp: loop_body_env_def Let_def line_record_def yields_append)

lemma for_lines_env_result:
  assumes "0 < n"
  shows "\<exists>evs. for_lines_env float_of clock n t0 st f =
           (evs, if lines_before_overflow clock n t0 (count st) (length f) = length f
                 then Inr (st\<lparr>count := count st + length f,
                        skipped := skipped st @ filter (\<lambda>l. line_record float_of l = None) f\<rparr>)
                 else Inl OverflowError)
         \<and> yields evs = List.map_filter (line_record float_of)
                          (take (lines_before_overflow clock n t0 (count st) (length f)) f)"
proof (induction f arbitrary: st)
  case Nil
  show ?case by (simp add: List.map_filter_simps)
next
  case (Cons line rest)
  show ?case
  proof (cases "time_estimate clock n t0 (count st + 1)")
    case (Inl e)
    then have "loop_body_env float_of clock n t0 st line = ([], Inl OverflowError)"
      by (rule loop_body_env_overflow [OF assms])
    with Inl show ?thesis
      by (simp add: List.map_filter_simps)
  next
    case (Inr v)
    let ?st' = "st\<lparr>count := count st + 1,
                 skipped := (case line_record float_of line of
                               None \<Rightarrow> skipped st @ [line] | Some r \<Rightarrow> skipped st)\<rparr>"
    let ?k = "lines_before_overflow clock n t0 (count st + 1) (length rest)"
    from loop_body_env_ok [OF Inr, of float_of line] obtain evs where
      body: "loop_body_env float_of clock n t0 st line = (evs, Inr ?st')"
      and ys: "yields evs = (case line_record float_of line of None \<Rightarrow> [] | Some r \<Rightarrow> [r])"
      by blast
    from Cons.IH [of ?st'] obtain evs' where
      rest: "for_lines_env float_of clock n t0 ?st' rest =
           (evs', if ?k = length rest
                 then Inr (?st'\<lparr>count := count ?st' + length rest,
                        skipped := skipped ?st' @ filter (\<lambda>l. line_record float_of l = None) rest\<rparr>)
                 else Inl OverflowError)"
      and ys': "yields evs' = List.map_filter (line_record float_of) (take ?k rest)"
      by auto
    show ?thesis
      using Inr body rest ys ys'
      by (cases "line_record float_of line")
         (simp_all add: yields_append List.map_filter_simps)
  qed
qed

lemma lines_before_overflow_short:
  assumes "0 < n" and "lines_before_overflow clock n t0 c m \<noteq> m"
  shows "\<exists>k<m. time_estimate clock n t0 (c + k + 1) = Inl OverflowError"
  using assms(2)
proof (induction m arbitrary: c)
  case 0
  then show ?case by simp
next
  case (Suc m)
  show ?case
  proof (cases "time_estimate clock n t0 (c + 1)")
    case (Inl e)
    with assms(1) have "e = OverflowError"
      using time_estimate_error [of n clock t0 c e] by simp
    with Inl have "time_estimate clock n t0 (c + 0 + 1) = Inl OverflowError"
      by simp
    then show ?thesis by blast
  next
    case (Inr v)
    with Suc.prems have "lines_before_overflow clock n t0 (c + 1) m \<noteq> m"
      by simp
    from Suc.IH [OF this] obtain k where "k < m"
      and "time_estimate clock n t0 (c + 1 + k + 1) = Inl OverflowError"
      by blast
    then have "Suc k < Suc m \<and> time_estimate clock n t0 (c + Suc k + 1) = Inl OverflowError"
      by (simp add: add.commute add.left_commute)
    then show ?thesis by blast
  qed
qed

lemma lines_before_overflow_all:
  assumes "0 < n" and "\<forall>k<m. \<exists>v. time_estimate clock n t0 (c + k + 1) = Inr v"
  shows "lines_before_overflow clock n t0 c m = m"
proof (rule ccontr)
  assume "lines_before_overflow clock n t0 c m \<noteq> m"
  from lines_before_overflow_short [OF assms(1) this] obtain k where
    "k < m" and "time_estimate clock n t0 (c + k + 1) = Inl OverflowError"
    by blast
  with assms(2) show False by fastforce
qed

lemma lines_before_overflow_first:
  assumes "time_estimate clock n t0 (c + 1) = Inl e"
  shows "lines_before_overflow clock n t0 c m = 0"
  using assms by (cases m) simp_all

lemma load_data_env_missing:
  assumes "fs (path_join data_folder FILENAME) = None"
  shows "load_data_env float_of clock fs data_folder =
           ([Log (Error_file_not_found (path_join data_folder FILENAME))],
            Inl (FileExistsError (FILE_NOT_FOUND_ERROR (path_join data_folder FILENAME))))"
  using assms by (simp add: load_data_env_def Let_def)

lemma load_data_env_first_pass:
  assumes "fs (path_join data_folder FILENAME) = Some (a, b)"
    and "a = Open_fails e \<or> (\<exists>f. a = Opens f (Some e))"
  shows "load_data_env float_of clock fs data_folder = ([Log Info_start_counting], Inl e)"
  using assms by (auto simp: load_data_env_def Let_def inspect_file_env_def)

lemma load_data_env_second_open:
  assumes "fs (path_join data_folder FILENAME) = Some (Opens fa None, Open_fails e)"
  shows "load_data_env float_of clock fs data_folder = (map Log (fst (inspect_file fa)), Inl e)"
  using assms by (simp add: load_data_env_def Let_def inspect_file_env_def)

lemma load_data_env_reads:
  assumes "fs (path_join data_folder FILENAME) = Some (Opens fa None, Opens f failure)"
  shows "\<exists>evs. load_data_env float_of clock fs data_folder =
           (evs, if lines_before_overflow clock (snd (inspect_file fa)) (clock 0) 0 (length f)
                      = length f
                 then (case failure of
                         Some e \<Rightarrow> Inl e
                       | None \<Rightarrow> Inr \<lparr>count = length f,
                                   skipped = filter (\<lambda>l. line_record float_of l = None) f\<rparr>)
                 else Inl OverflowError)
         \<and> yields evs = List.map_filter (line_record float_of)
              (take (lines_before_overflow clock (snd (inspect_file fa)) (clock 0) 0 (length f)) f)"
proof -
  define n where "n = snd (inspect_file fa)"
  have pos: "0 < n"
    by (simp add: n_def inspect_file_lines)
  let ?k = "lines_before_overflow clock n (clock 0) 0 (length f)"
  obtain evs where run:
    "for_lines_env float_of clock n (clock 0) \<lparr>count = 0, skipped = []\<rparr> f =
       (evs, if ?k = length f
             then Inr \<lparr>count = length f,
                        skipped = filter (\<lambda>l. line_record float_of l = None) f\<rparr>
             else Inl OverflowError)"
    and ys: "yields evs = List.map_filter (line_record float_of) (take ?k f)"
    using for_lines_env_result [OF pos, of float_of clock "clock 0" "\<lparr>count = 0, skipped = []\<rparr>" f]
    by auto
  show ?thesis
    using assms run ys
    unfolding n_def
    by (cases failure)
       (auto simp: load_data_env_def Let_def inspect_file_env_def yields_append yields_map_Log
          yields_map_Log_of)
qed

lemma map_filter_replicate_None:
  assumes "g x = None"
  shows "List.map_filter g (replicate n x) = []"
  using assms by (induction n) (simp_all add: List.map_filter_simps)

lemma map_filter_append:
  "List.map_filter g (xs @ ys) = List.map_filter g xs @ List.map_filter g ys"
  by (simp add: List.map_filter_def)

lemma map_filter_take_drop:
  "List.map_filter g (take k xs) @ List.map_filter g (drop k xs) = List.map_filter g xs"
  using map_filter_append [of g "take k xs" "drop k xs"] by simp

lemma load_data_env_early:
  assumes "\<nexists>fa f failure.
             fs (path_join data_folder FILENAME) = Some (Opens fa None, Opens f failure)"
  shows "\<exists>evs e. (\<forall>clock. load_data_env float_of clock fs data_folder = (evs, Inl e))
           \<and> yields evs = []
           \<and> (fs (path_join data_folder FILENAME) = None
                \<and> e = FileExistsError (FILE_NOT_FOUND_ERROR (path_join data_folder FILENAME))
              \<or> (\<exists>a b. fs (path_join data_folder FILENAME) = Some (a, b)
                    \<and> (a = Open_fails e \<or> (\<exists>f. a = Opens f (Some e))
                        \<or> (\<exists>fa. a = Opens fa None \<and> b = Open_fails e))))"
proof (cases "fs (path_join data_folder FILENAME)")
  case None
  then show ?thesis
    by (simp add: load_data_env_missing [where float_of = float_of])
next
  case (Some ab)
  obtain a b where ab: "ab = (a, b)" by (cases ab)
  show ?thesis
  proof (cases "\<exists>e. a = Open_fails e \<or> (\<exists>f. a = Opens f (Some e))")
    case True
    then obtain e where e: "a = Open_fails e \<or> (\<exists>f. a = Opens f (Some e))" by blast
    have "\<forall>clock. load_data_env float_of clock fs data_folder = ([Log Info_start_counting], Inl e)"
      using Some ab e load_data_env_first_pass [where float_of = float_of and fs = fs and a = a and b = b and e = e
          and data_folder = data_folder]
      by blast
    moreover have "yields [Log Info_start_counting :: 'a event] = []" by simp
    ultimately show ?thesis using Some ab e by blast
  next
    case False
    have "\<exists>fa. a = Opens fa None"
    proof (cases a)
      case (Open_fails e)
      with False show ?thesis by blast
    next
      case (Opens fa failure)
      with False show ?thesis by (cases failure) auto
    qed
    then obtain fa where a: "a = Opens fa None" by blast
    with assms Some ab obtain e where b: "b = Open_fails e"
      by (cases b) auto
    have "\<forall>clock. load_data_env float_of clock fs data_folder =
            (map Log (fst (inspect_file fa)), Inl e)"
      using Some ab a b load_data_env_second_open [where float_of = float_of and fs = fs and fa = fa and e = e
          and data_folder = data_folder]
      by simp
    moreover have "yields (map Log (fst (inspect_file fa)) :: 'a event list) = []"
      by (rule yields_map_Log)
    ultimately show ?thesis using Some ab a b by blast
  qed
qed

text \<open>
  The two models agree, on an iteration whose estimate fits and on the run over a file that
  is not changed and can be read, under a clock whose estimates all fit: the properties of
  \<open>loop_body\<close> and \<open>load_data\<close> proved above are then properties of \<open>loop_body_env\<close> and
  \<open>load_data_env\<close>.
\<close>

lemma loop_body_env_agrees:
  assumes "time_estimate clock (Suc n) t0 (count st + 1) = Inr v"
  shows "yields (fst (loop_body_env float_of clock (Suc n) t0 st line)) =
           yields (fst (loop_body float_of clock (Suc n) t0 st line))"
    and "snd (loop_body_env float_of clock (Suc n) t0 st line) =
           snd (loop_body float_of clock (Suc n) t0 st line)"
  using loop_body_env_ok [OF assms, of float_of line]
    loop_body_result [of "Suc n" float_of clock t0 st line]
  by auto

lemma load_data_env_agrees:
  assumes "fs (path_join data_folder FILENAME) = Some f"
    and "env (path_join data_folder FILENAME) = Some (Opens f None, Opens f None)"
    and "lines_before_overflow clock (snd (inspect_file f)) (clock 0) 0 (length f) = length f"
  shows "yields (fst (load_data_env float_of clock env data_folder)) =
           yields (fst (load_data float_of clock fs data_folder))"
    and "snd (load_data_env float_of clock env data_folder) =
           snd (load_data float_of clock fs data_folder)"
proof -
  from assms(2) load_data_env_reads [where float_of = float_of and clock = clock and fs = env
      and data_folder = data_folder and fa = f and f = f and failure = None]
  obtain evs where
    run: "load_data_env float_of clock env data_folder =
            (evs, Inr \<lparr>count = length f,
                    skipped = filter (\<lambda>l. line_record float_of l = None) f\<rparr>)"
    and ys: "yields evs = List.map_filter (line_record float_of) f"
    unfolding assms(3) by auto
  have old: "yields (fst (load_data float_of clock fs data_folder)) =
           List.map_filter (line_record float_of) f"
    "snd (load_data float_of clock fs data_folder) =
           Inr \<lparr>count = length f,
                  skipped = filter (\<lambda>l. line_record float_of l = None) f\<rparr>"
    using assms(1) by (rule load_data_yields)+
  show "yields (fst (load_data_env float_of clock env data_folder)) =
           yields (fst (load_data float_of clock fs data_folder))"
    unfolding run old by (simp add: ys)
  show "snd (load_data_env float_of clock env data_folder) =
           snd (load_data float_of clock fs data_folder)"
    unfolding run old by simp
qed

text \<open>
  Clocks that advance one second per reading give estimates that fit, on every file of
  fewer than 86400000000000 lines.
\<close>

lemma py_timedelta_of_nat:
  assumes "m < 86400000000000"
  shows "py_timedelta (of_nat m) = Inr (int m * 1000000)"
proof -
  have "(of_nat m :: rat) * 1000000 = of_int (int m * 1000000)"
    by simp
  then have r: "round_half_even (of_nat m * 1000000) = int m * 1000000"
    unfolding round_half_even_def Let_def by (simp only: floor_of_int) simp
  have "int m * 1000000 div 86400000000 = int m div 86400"
    by simp
  moreover have "int m div 86400 \<le> 999999999"
    using assms by simp
  moreover have "0 \<le> int m div 86400"
    by simp
  ultimately show ?thesis
    unfolding py_timedelta_def Let_def r by simp
qed

lemma time_estimate_steady:
  assumes "clock k - t0 = of_nat k" and "0 < k" and "k \<le> n" and "n < 86400000000000"
  shows "time_estimate clock n t0 k = Inr (of_nat k / of_nat n, int (n - k) * 1000000)"
proof -
  from assms have n: "0 < n" by simp
  have "(of_nat k :: rat) * (1 - of_nat k / of_nat n) / (of_nat k / of_nat n) =
          of_nat n - of_nat k"
    using assms(2) n by (simp add: field_simps)
  also have "\<dots> = of_nat (n - k)"
    using assms(3) by (simp add: of_nat_diff)
  finally have secs: "(clock k - t0) * (1 - of_nat k / of_nat n) / (of_nat k / of_nat n) =
                        of_nat (n - k)"
    by (simp only: assms(1))
  have "n - k < 86400000000000"
    using assms(4) by simp
  then have "py_timedelta (of_nat (n - k)) = Inr (int (n - k) * 1000000)"
    by (rule py_timedelta_of_nat)
  with secs assms(2) n show ?thesis
    by (simp add: time_estimate_def py_truediv_def)
qed

lemma lines_before_overflow_steady:
  assumes "\<forall>k. clock k - t0 = of_nat k" and "c + m \<le> n" and "n < 86400000000000"
  shows "lines_before_overflow clock n t0 c m = m"
  using assms(2)
proof (induction m arbitrary: c)
  case 0
  show ?case by simp
next
  case (Suc m)
  then have "0 < c + 1" and "c + 1 \<le> n" and "c + 1 + m \<le> n"
    by simp_all
  moreover from assms(1) have "clock (c + 1) - t0 = of_nat (c + 1)"
    by blast
  ultimately show ?case
    using Suc.IH [of "c + 1"] time_estimate_steady [of clock "c + 1" t0 n, OF _ _ _ assms(3)]
    by simp
qed

lemma clock_example_steady: "\<forall>k. clock_example k - clock_example 0 = of_nat k"
  by (simp add: clock_example_def)

text \<open>The runs on the sample inputs.\<close>

lemma long_file_lines: "snd (inspect_file long_file) = 100000" "length long_file = 100000"
  by (simp_all add: inspect_file_lines long_file_def)

lemma long_input_file:
  "long_input (path_join ''data'' FILENAME) = Some (Opens long_file None, Opens long_file None)"
  by (simp add: long_input_def)

lemma time_estimate_clock_jump:
  "time_estimate clock_jump 100000 (clock_jump 0) (0 + 1) = Inl OverflowError"
  apply (simp add: time_estimate_def py_truediv_def clock_jump_def)
  apply (simp add: py_timedelta_def round_half_even_def Let_def)
  done

lemma long_run_jump:
  "snd (load_data_env float_example clock_jump long_input ''data'') = Inl OverflowError"
  "yields (fst (load_data_env float_example clock_jump long_input ''data'')) = []"
proof -
  have k: "lines_before_overflow clock_jump 100000 (clock_jump 0) 0 100000 = 0"
    by (rule lines_before_overflow_first [OF time_estimate_clock_jump])
  from load_data_env_reads [where float_of = float_example and clock = clock_jump
      and fs = long_input and data_folder = "''data''", OF long_input_file]
  obtain evs where
    run: "load_data_env float_example clock_jump long_input ''data'' = (evs, Inl OverflowError)"
    and ys: "yields evs = List.map_filter (line_record float_example) (take 0 long_file)"
    unfolding long_file_lines k by auto
  show "snd (load_data_env float_example clock_jump long_input ''data'') = Inl OverflowError"
    unfolding run by simp
  show "yields (fst (load_data_env float_example clock_jump long_input ''data'')) = []"
    unfolding run fst_conv ys by (simp add: List.map_filter_simps)
qed

lemma long_run_steady:
  "yields (fst (load_data_env float_example clock_example long_input ''data'')) =
     [make_entry ''1'' 100 200 (1 / 2) ''PDB1'' ''A'' ''featX'' ''10'' ''20'']"
proof -
  have k: "lines_before_overflow clock_example 100000 (clock_example 0) 0 100000 = 100000"
    by (rule lines_before_overflow_steady [OF clock_example_steady]) simp_all
  from load_data_env_reads [where float_of = float_example and clock = clock_example
      and fs = long_input and data_folder = "''data''", OF long_input_file]
  obtain evs where
    ys: "yields (fst (load_data_env float_example clock_example long_input ''data'')) =
           List.map_filter (line_record float_example) (take 100000 long_file)"
    unfolding long_file_lines k by auto
  have all: "take 100000 long_file = long_file"
    using long_file_lines(2) by simp
  have "List.map_filter (line_record float_example) (replicate 99999 comment_line) = []"
    using line_record_comment_line by (rule map_filter_replicate_None)
  then show ?thesis
    unfolding ys all
    by (simp add: long_file_def List.map_filter_simps line_record_example_line)
qed

lemma directory_run:
  "load_data_env float_example clock_example directory_input ''data'' =
     ([Log Info_start_counting], Inl (OSError ''IsADirectoryError''))"
proof -
  have "directory_input (path_join ''data'' FILENAME) =
          Some (Open_fails (OSError ''IsADirectoryError''),
                Open_fails (OSError ''IsADirectoryError''))"
    by (simp add: directory_input_def)
  then show ?thesis
    by (rule load_data_env_first_pass) blast
qed

lemma undecodable_run:
  "load_data_env float_example clock_example undecodable_input ''data'' =
     ([Log Info_start_counting], Inl UnicodeDecodeError)"
proof -
  have "undecodable_input (path_join ''data'' FILENAME) =
          Some (Opens [example_line] (Some UnicodeDecodeError),
                Opens [example_line] (Some UnicodeDecodeError))"
    by (simp add: undecodable_input_def)
  then show ?thesis
    by (rule load_data_env_first_pass) blast
qed

lemma failing_read_input_file:
  "failing_read_input (path_join ''data'' FILENAME) =
     Some (Opens mixed_file None,
           Opens [comment_line, example_line] (Some (OSError ''Input/output error'')))"
  by (simp add: failing_read_input_def)

text \<open>
  C4, as the code has it. Processing one line never ends in an exception: on a line that is
  neither a comment nor blank, a failure of the split or of the unpacking ends in the first
  handler and a failure of one of the conversions ends in the second, and the line has no
  record. An iteration whose estimate of the time left fits ends without an exception, and
  on a line without a record it yields nothing and appends the line to \<open>skipped\<close>. When a
  run in which every estimate fits ends in an exception, then either the input file is
  missing, the exception is \<^verbatim>\<open>FileExistsError\<close> and nothing was yielded; or the exception is
  the one raised by the first \<^verbatim>\<open>open\<close>, by a read of the first pass or by the second
  \<^verbatim>\<open>open\<close>, and nothing was yielded; or it is the one raised by a read of the second
  pass. Each of these does end the run: a missing input file, a failure of an \<^verbatim>\<open>open\<close> or
  of a read of the first pass under any clock, and a failure of a read of the second pass
  when the estimates for the lines before it fit.
\<close>

theorem C4_exceptions_that_escape:
  "(\<forall>e. process_line float_of line \<noteq> Raise e)
   \<and> (\<not> py_startswith line ''#'' \<and> py_strip line \<noteq> [] \<longrightarrow>
        (\<forall>e. split_line line = Inl e \<longrightarrow>
               (\<exists>got. process_line float_of line = Skip_unpack got)
             \<and> line_record float_of line = None)
      \<and> (\<forall>chrom start end_pos score rest e.
            split_line line = Inr (chrom, start, end_pos, score, rest)
            \<and> cast_fields float_of chrom start end_pos score = Inl e \<longrightarrow>
               process_line float_of line = Skip_cast \<and> line_record float_of line = None))
   \<and> (\<forall>v. time_estimate clock (Suc n) start_time (count st + 1) = Inr v \<longrightarrow>
        (\<exists>evs st'. loop_body_env float_of clock (Suc n) start_time st line = (evs, Inr st')
           \<and> (line_record float_of line = None \<longrightarrow>
                 yields evs = [] \<and> skipped st' = skipped st @ [line])))
   \<and> (\<forall>evs e. load_data_env float_of clock fs data_folder = (evs, Inl e)
         \<and> (\<forall>fa f failure k.
               fs (path_join data_folder FILENAME) = Some (Opens fa None, Opens f failure)
               \<and> k < length f \<longrightarrow>
               (\<exists>v. time_estimate clock (snd (inspect_file fa)) (clock 0) (k + 1) = Inr v)) \<longrightarrow>
          (fs (path_join data_folder FILENAME) = None
           \<and> e = FileExistsError (FILE_NOT_FOUND_ERROR (path_join data_folder FILENAME))
           \<and> yields evs = [])
        \<or> (\<exists>a b. fs (path_join data_folder FILENAME) = Some (a, b)
              \<and> (a = Open_fails e \<or> (\<exists>f. a = Opens f (Some e))
                  \<or> (\<exists>fa. a = Opens fa None \<and> b = Open_fails e))
              \<and> yields evs = [])
        \<or> (\<exists>fa f. fs (path_join data_folder FILENAME) = Some (Opens fa None, Opens f (Some e))))
   \<and> (fs (path_join data_folder FILENAME) = None \<longrightarrow>
        (\<exists>evs. load_data_env float_of clock fs data_folder =
                 (evs, Inl (FileExistsError
                              (FILE_NOT_FOUND_ERROR (path_join data_folder FILENAME))))))
   \<and> (\<forall>a b e. fs (path_join data_folder FILENAME) = Some (a, b)
         \<and> (a = Open_fails e \<or> (\<exists>f. a = Opens f (Some e))
             \<or> (\<exists>fa. a = Opens fa None \<and> b = Open_fails e)) \<longrightarrow>
         snd (load_data_env float_of clock fs data_folder) = Inl e)
   \<and> (\<forall>fa f e. fs (path_join data_folder FILENAME) = Some (Opens fa None, Opens f (Some e))
         \<and> (\<forall>k<length f.
               \<exists>v. time_estimate clock (snd (inspect_file fa)) (clock 0) (k + 1) = Inr v) \<longrightarrow>
         snd (load_data_env float_of clock fs data_folder) = Inl e)"
proof -
  let ?path = "path_join data_folder FILENAME"
  have a: "\<forall>e. process_line float_of line \<noteq> Raise e"
    by (simp add: process_line_no_raise)
  have b: "(\<exists>got. process_line float_of line = Skip_unpack got)
             \<and> line_record float_of line = None"
    if "\<not> py_startswith line ''#''" and "py_strip line \<noteq> []" and "split_line line = Inl e" for e
    using that split_line_error [OF that(3)]
    by (simp add: process_line_def line_record_def py_split_DELIMITER)
  have c: "process_line float_of line = Skip_cast \<and> line_record float_of line = None"
    if "\<not> py_startswith line ''#''" and "py_strip line \<noteq> []"
      and "split_line line = Inr (chrom, start, end_pos, score, rest)"
      and "cast_fields float_of chrom start end_pos score = Inl e"
    for chrom start end_pos score rest e
    using that cast_fields_error [OF that(4)]
    by (cases rest) (simp add: process_line_def line_record_def)
  have d: "\<exists>evs st'. loop_body_env float_of clock (Suc n) start_time st line = (evs, Inr st')
           \<and> (line_record float_of line = None \<longrightarrow>
                 yields evs = [] \<and> skipped st' = skipped st @ [line])"
    if est: "time_estimate clock (Suc n) start_time (count st + 1) = Inr v" for v
    using loop_body_env_ok [OF est, of float_of line] by auto
  have reads: "snd (load_data_env float_of clock fs data_folder) =
                 (case failure of
                    Some e \<Rightarrow> Inl e
                  | None \<Rightarrow> Inr \<lparr>count = length f,
                              skipped = filter (\<lambda>l. line_record float_of l = None) f\<rparr>)"
    if fs: "fs ?path = Some (Opens fa None, Opens f failure)"
      and fit: "\<forall>k<length f.
                 \<exists>v. time_estimate clock (snd (inspect_file fa)) (clock 0) (k + 1) = Inr v"
    for fa f failure
  proof -
    have pos: "0 < snd (inspect_file fa)"
      by (simp add: inspect_file_lines)
    from fit have "lines_before_overflow clock (snd (inspect_file fa)) (clock 0) 0 (length f)
                     = length f"
      by (intro lines_before_overflow_all [OF pos]) simp
    with fs load_data_env_reads [where float_of = float_of and clock = clock and fs = fs
        and data_folder = data_folder and fa = fa and f = f and failure = failure]
    show ?thesis by auto
  qed
  have f: "(fs ?path = None
           \<and> e = FileExistsError (FILE_NOT_FOUND_ERROR ?path)
           \<and> yields evs = [])
        \<or> (\<exists>a b. fs ?path = Some (a, b)
              \<and> (a = Open_fails e \<or> (\<exists>f. a = Opens f (Some e))
                  \<or> (\<exists>fa. a = Opens fa None \<and> b = Open_fails e))
              \<and> yields evs = [])
        \<or> (\<exists>fa f. fs ?path = Some (Opens fa None, Opens f (Some e)))"
    if run: "load_data_env float_of clock fs data_folder = (evs, Inl e)"
      and fit: "\<forall>fa f failure k.
               fs ?path = Some (Opens fa None, Opens f failure) \<and> k < length f \<longrightarrow>
               (\<exists>v. time_estimate clock (snd (inspect_file fa)) (clock 0) (k + 1) = Inr v)"
    for evs e
  proof (cases "\<exists>fa f failure. fs ?path = Some (Opens fa None, Opens f failure)")
    case False
    then obtain evs' e' where
      same: "\<forall>clock. load_data_env float_of clock fs data_folder = (evs', Inl e')"
      and ys: "yields evs' = []"
      and why: "fs ?path = None \<and> e' = FileExistsError (FILE_NOT_FOUND_ERROR ?path)
              \<or> (\<exists>a b. fs ?path = Some (a, b)
                    \<and> (a = Open_fails e' \<or> (\<exists>f. a = Opens f (Some e'))
                        \<or> (\<exists>fa. a = Opens fa None \<and> b = Open_fails e')))"
      using load_data_env_early [where float_of = float_of and fs = fs
          and data_folder = data_folder]
      by blast
    from same run have "evs' = evs" and "e' = e" by simp_all
    with ys why show ?thesis by blast
  next
    case True
    then obtain fa f failure where
      fs: "fs ?path = Some (Opens fa None, Opens f failure)"
      by blast
    with fit have "\<forall>k<length f.
                 \<exists>v. time_estimate clock (snd (inspect_file fa)) (clock 0) (k + 1) = Inr v"
      by blast
    from reads [OF fs this] run have "failure = Some e"
      by (cases failure) simp_all
    with fs show ?thesis by blast
  qed
  have g: "\<exists>evs. load_data_env float_of clock fs data_folder =
                 (evs, Inl (FileExistsError (FILE_NOT_FOUND_ERROR ?path)))"
    if "fs ?path = None"
    using that by (simp add: load_data_env_missing)
  have h: "snd (load_data_env float_of clock fs data_folder) = Inl e"
    if fs: "fs ?path = Some (a, b)"
      and why: "a = Open_fails e \<or> (\<exists>f. a = Opens f (Some e))
             \<or> (\<exists>fa. a = Opens fa None \<and> b = Open_fails e)"
    for a b e
  proof (cases "a = Open_fails e \<or> (\<exists>f. a = Opens f (Some e))")
    case True
    with fs show ?thesis
      using load_data_env_first_pass [where float_of = float_of and clock = clock and fs = fs
          and data_folder = data_folder and a = a and b = b and e = e]
      by simp
  next
    case False
    with why obtain fa where "a = Opens fa None" and "b = Open_fails e" by blast
    with fs show ?thesis
      using load_data_env_second_open [where float_of = float_of and clock = clock and fs = fs
          and data_folder = data_folder and fa = fa and e = e]
      by simp
  qed
  have i: "snd (load_data_env float_of clock fs data_folder) = Inl e"
    if "fs ?path = Some (Opens fa None, Opens f (Some e))"
      and "\<forall>k<length f.
              \<exists>v. time_estimate clock (snd (inspect_file fa)) (clock 0) (k + 1) = Inr v"
    for fa f e
    using reads [OF that] by simp
  have c2: "\<not> py_startswith line ''#'' \<and> py_strip line \<noteq> [] \<longrightarrow>
        (\<forall>e. split_line line = Inl e \<longrightarrow>
               (\<exists>got. process_line float_of line = Skip_unpack got)
             \<and> line_record float_of line = None)
      \<and> (\<forall>chrom start end_pos score rest e.
            split_line line = Inr (chrom, start, end_pos, score, rest)
            \<and> cast_fields float_of chrom start end_pos score = Inl e \<longrightarrow>
               process_line float_of line = Skip_cast \<and> line_record float_of line = None)"
    using b c by blast
  have c3: "\<forall>v. time_estimate clock (Suc n) start_time (count st + 1) = Inr v \<longrightarrow>
        (\<exists>evs st'. loop_body_env float_of clock (Suc n) start_time st line = (evs, Inr st')
           \<and> (line_record float_of line = None \<longrightarrow>
                 yields evs = [] \<and> skipped st' = skipped st @ [line]))"
    using d by blast
  have c4: "\<forall>evs e. load_data_env float_of clock fs data_folder = (evs, Inl e)
         \<and> (\<forall>fa f failure k.
               fs ?path = Some (Opens fa None, Opens f failure)
               \<and> k < length f \<longrightarrow>
               (\<exists>v. time_estimate clock (snd (inspect_file fa)) (clock 0) (k + 1) = Inr v)) \<longrightarrow>
          (fs ?path = None
           \<and> e = FileExistsError (FILE_NOT_FOUND_ERROR ?path)
           \<and> yields evs = [])
        \<or> (\<exists>a b. fs ?path = Some (a, b)
              \<and> (a = Open_fails e \<or> (\<exists>f. a = Opens f (Some e))
                  \<or> (\<exists>fa. a = Opens fa None \<and> b = Open_fails e))
              \<and> yields evs = [])
        \<or> (\<exists>fa f. fs ?path = Some (Opens fa None, Opens f (Some e)))"
  proof (intro allI impI)
    fix evs e
    assume "load_data_env float_of clock fs data_folder = (evs, Inl e)
         \<and> (\<forall>fa f failure k.
               fs ?path = Some (Opens fa None, Opens f failure)
               \<and> k < length f \<longrightarrow>
               (\<exists>v. time_estimate clock (snd (inspect_file fa)) (clock 0) (k + 1) = Inr v))"
    then show "(fs ?path = None
           \<and> e = FileExistsError (FILE_NOT_FOUND_ERROR ?path)
           \<and> yields evs = [])
        \<or> (\<exists>a b. fs ?path = Some (a, b)
              \<and> (a = Open_fails e \<or> (\<exists>f. a = Opens f (Some e))
                  \<or> (\<exists>fa. a = Opens fa None \<and> b = Open_fails e))
              \<and> yields evs = [])
        \<or> (\<exists>fa f. fs ?path = Some (Opens fa None, Opens f (Some e)))"
      by (intro f) (erule conjunct1, erule conjunct2)
  qed
  have c5: "fs ?path = None \<longrightarrow>
        (\<exists>evs. load_data_env float_of clock fs data_folder =
                 (evs, Inl (FileExistsError (FILE_NOT_FOUND_ERROR ?path))))"
    using g by (rule impI)
  have c6: "\<forall>a b e. fs ?path = Some (a, b)
         \<and> (a = Open_fails e \<or> (\<exists>f. a = Opens f (Some e))
             \<or> (\<exists>fa. a = Opens fa None \<and> b = Open_fails e)) \<longrightarrow>
         snd (load_data_env float_of clock fs data_folder) = Inl e"
  proof (intro allI impI)
    fix a b e
    assume "fs ?path = Some (a, b)
         \<and> (a = Open_fails e \<or> (\<exists>f. a = Opens f (Some e))
             \<or> (\<exists>fa. a = Opens fa None \<and> b = Open_fails e))"
    then show "snd (load_data_env float_of clock fs data_folder) = Inl e"
      by (intro h [of a b e]) (erule conjunct1, erule conjunct2)
  qed
  have c7: "\<forall>fa f e. fs ?path = Some (Opens fa None, Opens f (Some e))
         \<and> (\<forall>k<length f.
               \<exists>v. time_estimate clock (snd (inspect_file fa)) (clock 0) (k + 1) = Inr v) \<longrightarrow>
         snd (load_data_env float_of clock fs data_folder) = Inl e"
  proof (intro allI impI)
    fix fa f e
    assume "fs ?path = Some (Opens fa None, Opens f (Some e))
         \<and> (\<forall>k<length f.
               \<exists>v. time_estimate clock (snd (inspect_file fa)) (clock 0) (k + 1) = Inr v)"
    then show "snd (load_data_env float_of clock fs data_folder) = Inl e"
      by (intro i [of fa f e]) (erule conjunct1, erule conjunct2)
  qed
  show ?thesis
    by (intro conjI) (fact a, fact c2, fact c3, fact c4, fact c5, fact c6, fact c7)
qed

text \<open>
  C4 at a line whose score does not parse, in the first iteration on a file of one line;
  at an input file whose second read fails after two lines, under the clock that advances
  one second per reading; and at a file system without the input file.
\<close>

theorem C4_witness:
  "\<not> py_startswith bad_score_line ''#'' \<and> py_strip bad_score_line \<noteq> []
   \<and> split_line bad_score_line =
       Inr (''chr1'', ''100'', ''200'', ''NOTANUM'', ''PDB1'', ''A'', ''featX'', ''10'', ''20'')
   \<and> cast_fields float_example ''chr1'' ''100'' ''200'' ''NOTANUM'' = Inl ValueError
   \<and> process_line float_example bad_score_line = Skip_cast
   \<and> line_record float_example bad_score_line = None
   \<and> time_estimate clock_example (Suc 0) 0 (count \<lparr>count = 0, skipped = []\<rparr> + 1) = Inr (1, 0)
   \<and> (\<exists>evs st'. loop_body_env float_example clock_example (Suc 0) 0
                    \<lparr>count = 0, skipped = []\<rparr> bad_score_line = (evs, Inr st')
         \<and> yields evs = [] \<and> skipped st' = [bad_score_line])
   \<and> failing_read_input (path_join ''data'' FILENAME) =
       Some (Opens mixed_file None,
             Opens [comment_line, example_line] (Some (OSError ''Input/output error'')))
   \<and> time_estimate clock_example 5 (clock_example 0) 1 = Inr (1 / 5, 4000000)
   \<and> time_estimate clock_example 5 (clock_example 0) 2 = Inr (2 / 5, 3000000)
   \<and> snd (load_data_env float_example clock_example failing_read_input ''data'') =
       Inl (OSError ''Input/output error'')
   \<and> (Map.empty :: filesystem_env) (path_join ''data'' FILENAME) = None
   \<and> (\<exists>evs. load_data_env float_example clock_example Map.empty ''data'' =
              (evs, Inl (FileExistsError (FILE_NOT_FOUND_ERROR (path_join ''data'' FILENAME)))))"
proof -
  have h1: "\<not> py_startswith bad_score_line ''#'' \<and> py_strip bad_score_line \<noteq> []"
    by code_simp
  have h2: "split_line bad_score_line =
       Inr (''chr1'', ''100'', ''200'', ''NOTANUM'', ''PDB1'', ''A'', ''featX'', ''10'', ''20'')"
    by code_simp
  have h3: "cast_fields float_example ''chr1'' ''100'' ''200'' ''NOTANUM'' = Inl ValueError"
    by code_simp
  have h4: "(Map.empty :: filesystem_env) (path_join ''data'' FILENAME) = None"
    by simp
  have h5: "time_estimate clock_example (Suc 0) 0 (count \<lparr>count = 0, skipped = []\<rparr> + 1) =
              Inr (1, 0)"
    using time_estimate_steady [of clock_example 1 0 1] by (simp add: clock_example_def)
  have n: "snd (inspect_file mixed_file) = 5"
    by (simp add: inspect_file_lines mixed_file_def)
  have e1: "time_estimate clock_example 5 (clock_example 0) 1 = Inr (1 / 5, 4000000)"
    using time_estimate_steady [of clock_example 1 "clock_example 0" 5]
    by (simp add: clock_example_def)
  have e2: "time_estimate clock_example 5 (clock_example 0) 2 = Inr (2 / 5, 3000000)"
    using time_estimate_steady [of clock_example 2 "clock_example 0" 5]
    by (simp add: clock_example_def)
  have fit: "\<forall>k<length [comment_line, example_line].
               \<exists>v. time_estimate clock_example (snd (inspect_file mixed_file)) (clock_example 0)
                      (k + 1) = Inr v"
  proof (intro allI impI)
    fix k :: nat
    assume "k < length [comment_line, example_line]"
    then have le: "k + 1 \<le> 5" by simp
    have "clock_example (k + 1) - clock_example 0 = of_nat (k + 1)"
      by (simp add: clock_example_def)
    then have "time_estimate clock_example 5 (clock_example 0) (k + 1) =
                 Inr (of_nat (k + 1) / of_nat 5, int (5 - (k + 1)) * 1000000)"
      using le by (intro time_estimate_steady) simp_all
    then show "\<exists>v. time_estimate clock_example (snd (inspect_file mixed_file)) (clock_example 0)
                      (k + 1) = Inr v"
      unfolding n by blast
  qed
  note c4 = C4_exceptions_that_escape
         [where float_of = float_example and line = bad_score_line and clock = clock_example
            and n = 0 and start_time = 0 and st = "\<lparr>count = 0, skipped = []\<rparr>"
            and fs = failing_read_input and data_folder = "''data''"]
  note c4' = C4_exceptions_that_escape
         [where float_of = float_example and line = bad_score_line and clock = clock_example
            and n = 0 and start_time = 0 and st = "\<lparr>count = 0, skipped = []\<rparr>"
            and fs = Map.empty and data_folder = "''data''"]
  note c4_2 = c4 [THEN conjunct2, THEN conjunct1]
  note c4_3 = c4 [THEN conjunct2, THEN conjunct2, THEN conjunct1]
  note c4_7 = c4 [THEN conjunct2, THEN conjunct2, THEN conjunct2, THEN conjunct2,
                  THEN conjunct2, THEN conjunct2]
  note c4_5 = c4' [THEN conjunct2, THEN conjunct2, THEN conjunct2, THEN conjunct2,
                   THEN conjunct1]
  from c4_2 h1 h2 h3 have p: "process_line float_example bad_score_line = Skip_cast
      \<and> line_record float_example bad_score_line = None"
    by blast
  from c4_3 h5 obtain evs st' where
    "loop_body_env float_example clock_example (Suc 0) 0
       \<lparr>count = 0, skipped = []\<rparr> bad_score_line = (evs, Inr st')"
    and "line_record float_example bad_score_line = None \<longrightarrow>
           yields evs = [] \<and> skipped st' = skipped \<lparr>count = 0, skipped = []\<rparr> @ [bad_score_line]"
    by blast
  with p have l: "\<exists>evs st'. loop_body_env float_example clock_example (Suc 0) 0
                    \<lparr>count = 0, skipped = []\<rparr> bad_score_line = (evs, Inr st')
         \<and> yields evs = [] \<and> skipped st' = [bad_score_line]"
    by auto
  from c4_7 failing_read_input_file fit
  have r: "snd (load_data_env float_example clock_example failing_read_input ''data'') =
          Inl (OSError ''Input/output error'')"
    by blast
  from c4_5 h4 have m: "\<exists>evs. load_data_env float_example clock_example Map.empty ''data'' =
              (evs, Inl (FileExistsError (FILE_NOT_FOUND_ERROR (path_join ''data'' FILENAME))))"
    by blast
  show ?thesis
    using h1 h2 h3 p h5 l failing_read_input_file e1 e2 r h4 m
    by (intro conjI) simp_all
qed

text \<open>
  C4 as stated fails: exceptions other than the one for a missing file leave
  \<^verbatim>\<open>load_data\<close> although the input path exists. On the file of 100000 lines, under the
  clock that is set to the current date after \<open>start_time\<close> was taken, the first estimate
  is 1800000000 * 99999 seconds, more than 999999999 days, and the run ends in
  \<^verbatim>\<open>OverflowError\<close>. An input path that is a directory ends the run in
  \<^verbatim>\<open>IsADirectoryError\<close>, and an input file that does not decode in
  \<^verbatim>\<open>UnicodeDecodeError\<close>.
\<close>

theorem C4_counterexample:
  "long_input (path_join ''data'' FILENAME) = Some (Opens long_file None, Opens long_file None)
   \<and> snd (load_data_env float_example clock_jump long_input ''data'') = Inl OverflowError
   \<and> directory_input (path_join ''data'' FILENAME) =
       Some (Open_fails (OSError ''IsADirectoryError''), Open_fails (OSError ''IsADirectoryError''))
   \<and> snd (load_data_env float_example clock_example directory_input ''data'') =
       Inl (OSError ''IsADirectoryError'')
   \<and> undecodable_input (path_join ''data'' FILENAME) =
       Some (Opens [example_line] (Some UnicodeDecodeError),
             Opens [example_line] (Some UnicodeDecodeError))
   \<and> snd (load_data_env float_example clock_example undecodable_input ''data'') =
       Inl UnicodeDecodeError"
  using long_input_file long_run_jump(1) directory_run undecodable_run
  by (simp add: directory_input_def undecodable_input_def)

text \<open>
  Two runs on the same input under different clocks yield record sequences of which one is
  an initial segment of the other, and when neither run ends in \<^verbatim>\<open>OverflowError\<close> they
  yield the same records in the same order and end the same way. Log records are only
  written, never read.
\<close>

lemma records_same_unless_overflow:
  "(\<exists>rest rest'.
       yields (fst (load_data_env float_of clock fs data_folder)) @ rest =
       yields (fst (load_data_env float_of clock' fs data_folder)) @ rest')
   \<and> (snd (load_data_env float_of clock fs data_folder) \<noteq> Inl OverflowError
      \<and> snd (load_data_env float_of clock' fs data_folder) \<noteq> Inl OverflowError \<longrightarrow>
        yields (fst (load_data_env float_of clock fs data_folder)) =
        yields (fst (load_data_env float_of clock' fs data_folder))
      \<and> snd (load_data_env float_of clock fs data_folder) =
        snd (load_data_env float_of clock' fs data_folder))"
proof (cases "\<exists>fa f failure.
                fs (path_join data_folder FILENAME) = Some (Opens fa None, Opens f failure)")
  case False
  then obtain evs e where
    same: "\<forall>clock. load_data_env float_of clock fs data_folder = (evs, Inl e)"
    using load_data_env_early [where float_of = float_of and fs = fs
        and data_folder = data_folder]
    by blast
  then have "load_data_env float_of clock fs data_folder =
             load_data_env float_of clock' fs data_folder"
    by simp
  then show ?thesis by auto
next
  case True
  then obtain fa f failure where
    fs: "fs (path_join data_folder FILENAME) = Some (Opens fa None, Opens f failure)"
    by blast
  let ?g = "line_record float_of"
  let ?k = "lines_before_overflow clock (snd (inspect_file fa)) (clock 0) 0 (length f)"
  let ?k' = "lines_before_overflow clock' (snd (inspect_file fa)) (clock' 0) 0 (length f)"
  let ?done = "case failure of
                 Some e \<Rightarrow> Inl e
               | None \<Rightarrow> Inr \<lparr>count = length f, skipped = filter (\<lambda>l. ?g l = None) f\<rparr>"
  obtain evs where run:
    "load_data_env float_of clock fs data_folder =
       (evs, if ?k = length f then ?done else Inl OverflowError)"
    and ys: "yields evs = List.map_filter ?g (take ?k f)"
    using fs load_data_env_reads [where float_of = float_of and clock = clock and fs = fs
        and data_folder = data_folder and fa = fa and f = f and failure = failure]
    by blast
  obtain evs' where run':
    "load_data_env float_of clock' fs data_folder =
       (evs', if ?k' = length f then ?done else Inl OverflowError)"
    and ys': "yields evs' = List.map_filter ?g (take ?k' f)"
    using fs load_data_env_reads [where float_of = float_of and clock = clock' and fs = fs
        and data_folder = data_folder and fa = fa and f = f and failure = failure]
    by blast
  have "yields evs @ List.map_filter ?g (drop ?k f) =
        yields evs' @ List.map_filter ?g (drop ?k' f)"
    by (simp only: ys ys' map_filter_take_drop)
  then have one: "\<exists>rest rest'.
       yields (fst (load_data_env float_of clock fs data_folder)) @ rest =
       yields (fst (load_data_env float_of clock' fs data_folder)) @ rest'"
    unfolding run run' fst_conv by blast
  have two: "yields (fst (load_data_env float_of clock fs data_folder)) =
        yields (fst (load_data_env float_of clock' fs data_folder))
      \<and> snd (load_data_env float_of clock fs data_folder) =
        snd (load_data_env float_of clock' fs data_folder)"
    if "snd (load_data_env float_of clock fs data_folder) \<noteq> Inl OverflowError"
      and "snd (load_data_env float_of clock' fs data_folder) \<noteq> Inl OverflowError"
  proof -
    from that(1) have k: "?k = length f"
      unfolding run by (auto split: if_splits)
    from that(2) have k': "?k' = length f"
      unfolding run' by (auto split: if_splits)
    show ?thesis
      unfolding run run' by (simp add: ys ys' k k')
  qed
  from one two show ?thesis by blast
qed

text \<open>
  C8 fails on the code. On the file of 100000 lines, whose first line has a record, the run
  under the clock that advances one second per reading yields that record. Under the clock
  that is set to the current date after \<open>start_time\<close> was taken, the estimate of the first
  iteration is 1800000000 * 99999 seconds, more than 999999999 days: the conversion of
  source line 57 raises \<^verbatim>\<open>OverflowError\<close>, the run ends there and yields nothing.
\<close>

theorem C8_clock_step_ends_run_early:
  "long_input (path_join ''data'' FILENAME) = Some (Opens long_file None, Opens long_file None)
   \<and> clock_example 0 = 0 \<and> clock_example 1 = 1
   \<and> yields (fst (load_data_env float_example clock_example long_input ''data'')) =
       [make_entry ''1'' 100 200 (1 / 2) ''PDB1'' ''A'' ''featX'' ''10'' ''20'']
   \<and> clock_jump 0 = 0 \<and> clock_jump 1 = 1800000000
   \<and> time_estimate clock_jump 100000 (clock_jump 0) 1 = Inl OverflowError
   \<and> snd (load_data_env float_example clock_jump long_input ''data'') = Inl OverflowError
   \<and> yields (fst (load_data_env float_example clock_jump long_input ''data'')) = []"
  using long_input_file long_run_steady long_run_jump time_estimate_clock_jump
  by (simp add: clock_example_def clock_jump_def)

end
